theory Spec2Isabelle
  imports Main "HOL-Library.Word"
begin

unbundle bit_operations_syntax

section \<open>Errors and the records of package api\<close>

text \<open>
  A Go \<^verbatim>\<open>error\<close> is read in two ways by the scanner: \<^verbatim>\<open>err.Error()\<close> gives its
  message and \<^verbatim>\<open>common.ErrorCode(err)\<close> its code. The codes are declared in
  package \<^verbatim>\<open>common\<close>; the scanner only ever compares the code with
  \<^verbatim>\<open>common.NotFound\<close>, so every other code is kept as a number.
\<close>

datatype Code = NotFound | OtherCode nat

datatype error = Err Code string

fun ErrorCode :: "error \<Rightarrow> Code" where
  "ErrorCode (Err c m) = c"

fun Error :: "error \<Rightarrow> string" where
  "Error (Err c m) = m"

datatype RowStatus = Normal | Archived

record Environment =
  ID :: int
  Name :: string
  RowStatus :: RowStatus

record Instance =
  ID :: int
  Name :: string
  EnvironmentId :: int
  Environment :: "Environment option"

record Database =
  ID :: int
  Name :: string

text \<open>\<^verbatim>\<open>db.MigrationHistory\<close>: the two fields the drift detector reads.\<close>

record MigrationHistory =
  Version :: string
  Schema :: string

record BackupSetting =
  Enabled :: bool
  Hour :: int
  DayOfWeek :: int
  UpdatedTs :: int

record Backup =
  UpdatedTs :: int

text \<open>
  \<^verbatim>\<open>type BackupPlanPolicySchedule string\<close> with its three constants. The type is a
  Go string, so a policy can hold any text; the scanner compares by equality.
\<close>

type_synonym BackupPlanPolicySchedule = string

definition BackupPlanPolicyScheduleUnset :: BackupPlanPolicySchedule where
  "BackupPlanPolicyScheduleUnset = ''UNSET''"

definition BackupPlanPolicyScheduleDaily :: BackupPlanPolicySchedule where
  "BackupPlanPolicyScheduleDaily = ''DAILY''"

definition BackupPlanPolicyScheduleWeekly :: BackupPlanPolicySchedule where
  "BackupPlanPolicyScheduleWeekly = ''WEEKLY''"

record BackupPlanPolicy =
  Schedule :: BackupPlanPolicySchedule

datatype AnomalyType =
    AnomalyDatabaseConnection
  | AnomalyDatabaseSchemaDrift
  | AnomalyDatabaseBackupPolicyViolation
  | AnomalyDatabaseBackupMissing

text \<open>
  The four payload structs of package api, one constructor each, with the fields in
  the order the scanner fills them. \<^verbatim>\<open>LastBackupTs\<close> is an int64 whose zero value
  stands when no backup is on record.
\<close>

datatype AnomalyPayload =
    AnomalyDatabaseConnectionPayload string
  | AnomalyDatabaseSchemaDriftPayload string string string
  | AnomalyDatabaseBackupPolicyViolationPayload int BackupPlanPolicySchedule BackupPlanPolicySchedule
  | AnomalyDatabaseBackupMissingPayload BackupPlanPolicySchedule int

record AnomalyUpsert =
  CreatorId :: int
  InstanceId :: int
  DatabaseId :: int
  Type :: AnomalyType
  Payload :: string

record AnomalyArchive =
  DatabaseId :: int
  Type :: AnomalyType

section \<open>The collaborators of the scanner\<close>

text \<open>
  A driver as returned by \<^verbatim>\<open>GetDatabaseDriver\<close>: \<^verbatim>\<open>Dump\<close> (schema only) gives
  the text written to the buffer or an error, \<^verbatim>\<open>FindMigrationHistoryList\<close> takes
  the database name and the limit.
\<close>

record Driver =
  Dump :: "string \<Rightarrow> error + string"
  FindMigrationHistoryList :: "string \<Rightarrow> nat \<Rightarrow> error + MigrationHistory list"

text \<open>
  Everything the scanner calls and does not own: the services of the server, the
  driver factory, \<^verbatim>\<open>json.Marshal\<close> on the anomaly payloads (whose field tags are
  declared in package api), the clock and \<^verbatim>\<open>api.SYSTEM_BOT_ID\<close>. A Go function
  returning \<^verbatim>\<open>(*T, error)\<close> whose pointer the caller tests against nil is a pair
  of options; one whose value is dropped as soon as the error is set is a sum.
  \<^verbatim>\<open>Now k\<close> is the Unix time of the k-th reading of \<^verbatim>\<open>time.Now()\<close> inside one
  call of a detector.
\<close>

record Services =
  FindEnvironmentList :: "error + Environment list"
  GetBackupPlanPolicy :: "int \<Rightarrow> BackupPlanPolicy option \<times> error option"
  FindInstanceList :: "error + Instance list"
  ComposeInstanceAdminDataSource :: "Instance \<Rightarrow> error + Instance"
  FindDatabaseList :: "int \<Rightarrow> error + Database list"
  GetDatabaseDriver :: "Instance \<Rightarrow> error + Driver"
  FindBackupSetting :: "int \<Rightarrow> BackupSetting option \<times> error option"
  FindBackupList :: "int \<Rightarrow> Backup list \<times> error option"
  UpsertActiveAnomaly :: "AnomalyUpsert \<Rightarrow> error option"
  ArchiveAnomaly :: "AnomalyArchive \<Rightarrow> error option"
  json_Marshal :: "AnomalyPayload \<Rightarrow> error + string"
  Now :: "nat \<Rightarrow> int"
  SYSTEM_BOT_ID :: int

text \<open>
  What one call of the scanner does to the outside, in order: requests to the anomaly
  ledger, calls on the driver, and log lines (message and the \<^verbatim>\<open>type\<close> field when
  the line has one).
\<close>

datatype event =
    Upsert AnomalyUpsert
  | Archive AnomalyArchive
  | DriverDump string
  | DriverFindMigrationHistoryList string
  | DriverClose
  | LogError string "AnomalyType option"
  | LogDebug string "AnomalyType option"

datatype outcome = Return | Panic

section \<open>checkDatabaseAnomaly\<close>

text \<open>
  \<^verbatim>\<open>UpsertActiveAnomaly\<close> followed by its error log, and \<^verbatim>\<open>ArchiveAnomaly\<close>
  followed by its own, where a not-found error is silent. The source writes the two
  blocks out at each use; the type of the log line is an argument of its own because
  the source names it apart from the request.
\<close>

definition upsertActive :: "Services \<Rightarrow> AnomalyUpsert \<Rightarrow> AnomalyType \<Rightarrow> event list" where
  "upsertActive s u t =
     Upsert u #
     (case UpsertActiveAnomaly s u of
        Some err \<Rightarrow> [LogError ''Failed to create anomaly'' (Some t)]
      | None \<Rightarrow> [])"

definition archive :: "Services \<Rightarrow> AnomalyArchive \<Rightarrow> AnomalyType \<Rightarrow> event list" where
  "archive s a t =
     Archive a #
     (case ArchiveAnomaly s a of
        Some err \<Rightarrow>
          if ErrorCode err \<noteq> NotFound then [LogError ''Failed to close anomaly'' (Some t)] else []
      | None \<Rightarrow> [])"

text \<open>The block \<^verbatim>\<open>// Check schema drift\<close> up to the label \<^verbatim>\<open>SchemaDriftEnd\<close>.\<close>

definition checkSchemaDrift :: "Services \<Rightarrow> Driver \<Rightarrow> Instance \<Rightarrow> Database \<Rightarrow> event list" where
  "checkSchemaDrift s driver instance database =
     DriverDump (Database.Name database) #
     (case Dump driver (Database.Name database) of
        Inl err \<Rightarrow>
          if ErrorCode err = NotFound
          then [LogDebug ''Failed to check anomaly'' (Some AnomalyDatabaseSchemaDrift)]
          else [LogError ''Failed to check anomaly'' (Some AnomalyDatabaseSchemaDrift)]
      | Inr schemaBuf \<Rightarrow>
          DriverFindMigrationHistoryList (Database.Name database) #
          (case FindMigrationHistoryList driver (Database.Name database) 1 of
             Inl err \<Rightarrow> [LogError ''Failed to check anomaly'' (Some AnomalyDatabaseSchemaDrift)]
           | Inr list \<Rightarrow>
               (case list of
                  [] \<Rightarrow> []
                | h # rest \<Rightarrow>
                    if Schema h \<noteq> schemaBuf
                    then
                      (case json_Marshal s (AnomalyDatabaseSchemaDriftPayload (Version h) (Schema h) schemaBuf) of
                         Inl err \<Rightarrow>
                           [LogError ''Failed to marshal anomaly payload'' (Some AnomalyDatabaseSchemaDrift)]
                       | Inr payload \<Rightarrow>
                           upsertActive s
                             \<lparr>CreatorId = SYSTEM_BOT_ID s, InstanceId = Instance.ID instance,
                              DatabaseId = Database.ID database, Type = AnomalyDatabaseSchemaDrift,
                              Payload = payload\<rparr>
                             AnomalyDatabaseSchemaDrift)
                    else
                      archive s
                        \<lparr>DatabaseId = Database.ID database, Type = AnomalyDatabaseConnection\<rparr>
                        AnomalyDatabaseSchemaDrift)))"

definition checkDatabaseAnomaly :: "Services \<Rightarrow> Instance \<Rightarrow> Database \<Rightarrow> event list" where
  "checkDatabaseAnomaly s instance database =
     (case GetDatabaseDriver s instance of
        Inl err \<Rightarrow>
          (case json_Marshal s (AnomalyDatabaseConnectionPayload (Error err)) of
             Inl err' \<Rightarrow>
               [LogError ''Failed to marshal anomaly payload'' (Some AnomalyDatabaseConnection)]
           | Inr payload \<Rightarrow>
               upsertActive s
                 \<lparr>CreatorId = SYSTEM_BOT_ID s, InstanceId = Instance.ID instance,
                  DatabaseId = Database.ID database, Type = AnomalyDatabaseConnection,
                  Payload = payload\<rparr>
                 AnomalyDatabaseConnection)
      | Inr driver \<Rightarrow>
          archive s
            \<lparr>DatabaseId = Database.ID database, Type = AnomalyDatabaseConnection\<rparr>
            AnomalyDatabaseConnection
          @ checkSchemaDrift s driver instance database
          @ [DriverClose])"

section \<open>checkBackupAnomaly\<close>

text \<open>The schedule a backup setting stands for (the else branch after \<^verbatim>\<open>FindBackupSetting\<close>).\<close>

definition settingSchedule :: "BackupSetting \<Rightarrow> BackupPlanPolicySchedule" where
  "settingSchedule backupSetting =
     (if Enabled backupSetting \<and> Hour backupSetting \<noteq> - 1
      then (if DayOfWeek backupSetting = - 1
            then BackupPlanPolicyScheduleDaily
            else BackupPlanPolicyScheduleWeekly)
      else BackupPlanPolicyScheduleUnset)"

text \<open>The payload of the block \<^verbatim>\<open>// Check backup policy violation\<close>; None is the nil pointer.\<close>

definition backupPolicyAnomalyPayload ::
  "BackupPlanPolicy \<Rightarrow> Instance \<Rightarrow> BackupPlanPolicySchedule \<Rightarrow> AnomalyPayload option" where
  "backupPolicyAnomalyPayload policy instance schedule =
     (if Schedule policy \<noteq> BackupPlanPolicyScheduleUnset
      then
        if Schedule policy = BackupPlanPolicyScheduleDaily \<and> schedule \<noteq> BackupPlanPolicyScheduleDaily
        then Some (AnomalyDatabaseBackupPolicyViolationPayload (EnvironmentId instance) (Schedule policy) schedule)
        else if Schedule policy = BackupPlanPolicyScheduleWeekly \<and> schedule = BackupPlanPolicyScheduleUnset
        then Some (AnomalyDatabaseBackupPolicyViolationPayload (EnvironmentId instance) (Schedule policy) schedule)
        else None
      else None)"

definition checkBackupPolicyViolation ::
  "Services \<Rightarrow> Instance \<Rightarrow> Database \<Rightarrow> BackupPlanPolicy \<Rightarrow> BackupPlanPolicySchedule \<Rightarrow> event list" where
  "checkBackupPolicyViolation s instance database policy schedule =
     (case backupPolicyAnomalyPayload policy instance schedule of
        Some p \<Rightarrow>
          (case json_Marshal s p of
             Inl err \<Rightarrow>
               [LogError ''Failed to marshal anomaly payload'' (Some AnomalyDatabaseBackupPolicyViolation)]
           | Inr payload \<Rightarrow>
               upsertActive s
                 \<lparr>CreatorId = SYSTEM_BOT_ID s, InstanceId = Instance.ID instance,
                  DatabaseId = Database.ID database, Type = AnomalyDatabaseBackupPolicyViolation,
                  Payload = payload\<rparr>
                 AnomalyDatabaseBackupPolicyViolation)
      | None \<Rightarrow>
          archive s
            \<lparr>DatabaseId = Database.ID database, Type = AnomalyDatabaseBackupPolicyViolation\<rparr>
            AnomalyDatabaseBackupPolicyViolation)"

text \<open>
  The first half of the block \<^verbatim>\<open>// Check backup missing\<close>: the log line of a failed
  backup lookup, if any, and the payload (None is the nil pointer). The two
  durations are in seconds, as \<^verbatim>\<open>Unix()\<close> reads them.
\<close>

definition backupMissingAnomalyPayload ::
  "Services \<Rightarrow> Database \<Rightarrow> BackupSetting option \<Rightarrow> event list \<times> AnomalyPayload option" where
  "backupMissingAnomalyPayload s database backupSetting =
     (case backupSetting of
        None \<Rightarrow> ([], None)
      | Some bs \<Rightarrow>
          if Enabled bs
          then
            (let expectedSchedule =
                   (if DayOfWeek bs = - 1 then BackupPlanPolicyScheduleDaily else BackupPlanPolicyScheduleWeekly);
                 backupMaxAge = (if DayOfWeek bs = - 1 then 24 * 3600 else 7 * 24 * 3600)
             in
               if BackupSetting.UpdatedTs bs < Now s 0 - backupMaxAge
               then
                 (case FindBackupList s (Database.ID database) of
                    (backupList, err) \<Rightarrow>
                      let logs = (case err of
                                    Some e \<Rightarrow> [LogError ''Failed to retrieve backup list'' None]
                                  | None \<Rightarrow> []);
                          hasValidBackup =
                            (case backupList of
                               [] \<Rightarrow> False
                             | b # rest \<Rightarrow> Backup.UpdatedTs b \<ge> Now s 1 - backupMaxAge)
                      in
                        if \<not> hasValidBackup
                        then (logs,
                              Some (AnomalyDatabaseBackupMissingPayload expectedSchedule
                                      (case backupList of [] \<Rightarrow> 0 | b # rest \<Rightarrow> Backup.UpdatedTs b)))
                        else (logs, None))
               else ([], None))
          else ([], None))"

definition checkBackupMissing :: "Services \<Rightarrow> Instance \<Rightarrow> Database \<Rightarrow> BackupSetting option \<Rightarrow> event list" where
  "checkBackupMissing s instance database backupSetting =
     (case backupMissingAnomalyPayload s database backupSetting of
        (logs, Some p) \<Rightarrow>
          logs @
          (case json_Marshal s p of
             Inl err \<Rightarrow>
               [LogError ''Failed to marshal anomaly payload'' (Some AnomalyDatabaseBackupMissing)]
           | Inr payload \<Rightarrow>
               upsertActive s
                 \<lparr>CreatorId = SYSTEM_BOT_ID s, InstanceId = Instance.ID instance,
                  DatabaseId = Database.ID database, Type = AnomalyDatabaseBackupMissing,
                  Payload = payload\<rparr>
                 AnomalyDatabaseBackupMissing)
      | (logs, None) \<Rightarrow>
          logs @
          archive s
            \<lparr>DatabaseId = Database.ID database, Type = AnomalyDatabaseBackupMissing\<rparr>
            AnomalyDatabaseBackupMissing)"

text \<open>
  The whole function. Two nil pointers can be read: the setting, when the lookup gives
  neither a setting nor an error, and the policy of the instance's environment, when
  the map has no policy for it; Go panics at both.
\<close>

definition checkBackupAnomaly ::
  "Services \<Rightarrow> Instance \<Rightarrow> Database \<Rightarrow> (int \<Rightarrow> BackupPlanPolicy option) \<Rightarrow> event list \<times> outcome" where
  "checkBackupAnomaly s instance database policyMap =
     (case FindBackupSetting s (Database.ID database) of
        (backupSetting, err) \<Rightarrow>
          (case (case err of
                   Some e \<Rightarrow>
                     if ErrorCode e \<noteq> NotFound then Inl ([LogError ''Failed to retrieve backup setting'' None], Return)
                     else Inr BackupPlanPolicyScheduleUnset
                 | None \<Rightarrow>
                     (case backupSetting of
                        None \<Rightarrow> Inl ([], Panic)
                      | Some bs \<Rightarrow> Inr (settingSchedule bs))) of
             Inl stop \<Rightarrow> stop
           | Inr schedule \<Rightarrow>
               (case policyMap (EnvironmentId instance) of
                  None \<Rightarrow> ([], Panic)
                | Some policy \<Rightarrow>
                    (checkBackupPolicyViolation s instance database policy schedule
                     @ checkBackupMissing s instance database backupSetting,
                     Return))))"

section \<open>One round of Run\<close>

text \<open>The inner loop that attaches the environment of an instance.\<close>

fun attachEnvironment :: "Environment list \<Rightarrow> Instance \<Rightarrow> Instance" where
  "attachEnvironment [] instance = instance"
| "attachEnvironment (env # envs) instance =
     (if Environment.ID env = EnvironmentId instance
      then (if RowStatus env = Normal then instance\<lparr>Environment := Some env\<rparr> else instance)
      else attachEnvironment envs instance)"

text \<open>The loop that fills \<^verbatim>\<open>backupPlanPolicyMap\<close>; the first failure ends the round.\<close>

fun loadBackupPlanPolicyMap ::
  "Services \<Rightarrow> Environment list \<Rightarrow> (int \<Rightarrow> BackupPlanPolicy option)
     \<Rightarrow> event list + (int \<Rightarrow> BackupPlanPolicy option)" where
  "loadBackupPlanPolicyMap s [] m = Inr m"
| "loadBackupPlanPolicyMap s (env # envs) m =
     (case GetBackupPlanPolicy s (Environment.ID env) of
        (policy, Some err) \<Rightarrow> Inl [LogError ''Failed to retrieve backup policy'' None]
      | (policy, None) \<Rightarrow> loadBackupPlanPolicyMap s envs (m(Environment.ID env := policy)))"

text \<open>The loop over the databases of one instance; a panic leaves it.\<close>

fun scanDatabases ::
  "Services \<Rightarrow> Instance \<Rightarrow> (int \<Rightarrow> BackupPlanPolicy option) \<Rightarrow> Database list \<Rightarrow> event list \<times> outcome" where
  "scanDatabases s instance policyMap [] = ([], Return)"
| "scanDatabases s instance policyMap (database # dbList) =
     (let es1 = checkDatabaseAnomaly s instance database in
      case checkBackupAnomaly s instance database policyMap of
        (es2, Panic) \<Rightarrow> (es1 @ es2, Panic)
      | (es2, Return) \<Rightarrow>
          (case scanDatabases s instance policyMap dbList of
             (es3, out) \<Rightarrow> (es1 @ es2 @ es3, out)))"

text \<open>The function literal called on each instance that is let through.\<close>

definition scanInstance ::
  "Services \<Rightarrow> Instance \<Rightarrow> (int \<Rightarrow> BackupPlanPolicy option) \<Rightarrow> event list \<times> outcome" where
  "scanInstance s instance policyMap =
     (case FindDatabaseList s (Instance.ID instance) of
        Inl err \<Rightarrow> ([LogDebug ''Scan instance anomaly'' None, LogError ''Failed to retrieve database list'' None], Return)
      | Inr dbList \<Rightarrow>
          (case scanDatabases s instance policyMap dbList of
             (es, out) \<Rightarrow> (LogDebug ''Scan instance anomaly'' None # es, out)))"

text \<open>
  The loop over the instance list, with the set of running tasks. The deferred delete
  runs on every way out of the function literal, a panic included.
\<close>

fun scanInstances ::
  "Services \<Rightarrow> Environment list \<Rightarrow> (int \<Rightarrow> BackupPlanPolicy option) \<Rightarrow> Instance list \<Rightarrow> int set
     \<Rightarrow> event list \<times> outcome \<times> int set" where
  "scanInstances s environmentList policyMap [] runningTasks = ([], Return, runningTasks)"
| "scanInstances s environmentList policyMap (i # instanceList) runningTasks =
     (let instance = attachEnvironment environmentList i in
      case ComposeInstanceAdminDataSource s instance of
        Inl err \<Rightarrow>
          ([LogError ''Failed to retrieve instance admin connection info'' None], Return, runningTasks)
      | Inr instance \<Rightarrow>
          if Environment instance = None
          then scanInstances s environmentList policyMap instanceList runningTasks
          else if Instance.ID instance \<in> runningTasks
          then scanInstances s environmentList policyMap instanceList runningTasks
          else
            (case scanInstance s instance policyMap of
               (es, Panic) \<Rightarrow> (es, Panic, (insert (Instance.ID instance) runningTasks) - {Instance.ID instance})
             | (es, Return) \<Rightarrow>
                 (case scanInstances s environmentList policyMap instanceList
                         ((insert (Instance.ID instance) runningTasks) - {Instance.ID instance}) of
                    (es', r) \<Rightarrow> (es @ es', r))))"

text \<open>
  The body of the endless loop, from the debug line to before \<^verbatim>\<open>time.Sleep\<close>: the
  events of the round and the running tasks after it. The deferred \<^verbatim>\<open>recover\<close> turns
  a panic into a log line.
\<close>

definition scanRound :: "Services \<Rightarrow> int set \<Rightarrow> event list \<times> int set" where
  "scanRound s runningTasks =
     (case FindEnvironmentList s of
        Inl err \<Rightarrow>
          ([LogDebug ''New anomaly scanner round started...'' None,
            LogError ''Failed to retrieve instance list'' None], runningTasks)
      | Inr environmentList \<Rightarrow>
          (case loadBackupPlanPolicyMap s environmentList (\<lambda>k. None) of
             Inl es \<Rightarrow> (LogDebug ''New anomaly scanner round started...'' None # es, runningTasks)
           | Inr policyMap \<Rightarrow>
               (case FindInstanceList s of
                  Inl err \<Rightarrow>
                    ([LogDebug ''New anomaly scanner round started...'' None,
                      LogError ''Failed to retrieve instance list'' None], runningTasks)
                | Inr instanceList \<Rightarrow>
                    (case scanInstances s environmentList policyMap instanceList runningTasks of
                       (es, Panic, r) \<Rightarrow>
                         (LogDebug ''New anomaly scanner round started...'' None # es
                            @ [LogError ''Anomaly scanner PANIC RECOVER'' None], r)
                     | (es, Return, r) \<Rightarrow>
                         (LogDebug ''New anomaly scanner round started...'' None # es, r)))))"

section \<open>Bytes and runes: package unicode/utf8\<close>

text \<open>
  The policy functions of package api call three libraries: \<^verbatim>\<open>encoding/json\<close> and,
  through it, \<^verbatim>\<open>unicode/utf8\<close> and \<^verbatim>\<open>strconv\<close> of the Go distribution (go 1.16 in
  go.mod), and \<^verbatim>\<open>github.com/robfig/cron/v3\<close>. The sections up to the cron parser
  write out what these compute on the values the policy functions hand them.
\<close>

text \<open>
  A Go string is a sequence of bytes; \<^typ>\<open>string\<close> is one too. A rune is a code point,
  a natural number here: every rune the functions below produce is at most 0x10FFFF.
\<close>

definition byte :: "char \<Rightarrow> nat" where
  "byte c = of_char c"

definition RuneError :: nat where
  "RuneError = 0xFFFD"

text \<open>
  \<^verbatim>\<open>utf8.DecodeRune\<close>: the first rune of the bytes and its width; an invalid or
  short encoding gives \<^verbatim>\<open>(RuneError, 1)\<close>, no bytes \<^verbatim>\<open>(RuneError, 0)\<close>. The second
  byte has a range of its own after 0xE0, 0xED, 0xF0 and 0xF4 (no overlong forms, no
  surrogates, nothing above 0x10FFFF).
\<close>

fun DecodeRune :: "string \<Rightarrow> nat \<times> nat" where
  "DecodeRune [] = (RuneError, 0)"
| "DecodeRune (c0 # p) =
     (let p0 = byte c0 in
      if p0 < 0x80 then (p0, 1)
      else if p0 < 0xC2 \<or> 0xF4 < p0 then (RuneError, 1)
      else
        (let sz = (if p0 < 0xE0 then 2 else if p0 < 0xF0 then 3 else 4 :: nat);
             lo = (if p0 = 0xE0 then 0xA0 else if p0 = 0xF0 then 0x90 else 0x80);
             hi = (if p0 = 0xED then 0x9F else if p0 = 0xF4 then 0x8F else 0xBF)
         in
           case p of
             [] \<Rightarrow> (RuneError, 1)
           | c1 # p1 \<Rightarrow>
               (let b1 = byte c1 in
                if b1 < lo \<or> hi < b1 then (RuneError, 1)
                else if sz \<le> 2 then ((p0 mod 32) * 64 + b1 mod 64, 2)
                else
                  case p1 of
                    [] \<Rightarrow> (RuneError, 1)
                  | c2 # p2 \<Rightarrow>
                      (let b2 = byte c2 in
                       if b2 < 0x80 \<or> 0xBF < b2 then (RuneError, 1)
                       else if sz \<le> 3 then ((p0 mod 16) * 4096 + (b1 mod 64) * 64 + b2 mod 64, 3)
                       else
                         case p2 of
                           [] \<Rightarrow> (RuneError, 1)
                         | c3 # p3 \<Rightarrow>
                             (let b3 = byte c3 in
                              if b3 < 0x80 \<or> 0xBF < b3 then (RuneError, 1)
                              else ((p0 mod 8) * 262144 + (b1 mod 64) * 4096
                                      + (b2 mod 64) * 64 + b3 mod 64, 4))))))"

text \<open>\<^verbatim>\<open>utf8.EncodeRune\<close>: a surrogate or a value above 0x10FFFF is written as U+FFFD.\<close>

definition EncodeRune :: "nat \<Rightarrow> string" where
  "EncodeRune r =
     (if r \<le> 0x7F then [char_of r]
      else if r \<le> 0x7FF then [char_of (0xC0 + r div 64), char_of (0x80 + r mod 64)]
      else if r > 0x10FFFF \<or> (0xD800 \<le> r \<and> r \<le> 0xDFFF) then [CHR 0xEF, CHR 0xBF, CHR 0xBD]
      else if r \<le> 0xFFFF
      then [char_of (0xE0 + r div 4096), char_of (0x80 + (r div 64) mod 64), char_of (0x80 + r mod 64)]
      else [char_of (0xF0 + r div 262144), char_of (0x80 + (r div 4096) mod 64),
            char_of (0x80 + (r div 64) mod 64), char_of (0x80 + r mod 64)])"

text \<open>\<^verbatim>\<open>utf8.ValidString\<close>.\<close>

function ValidString :: "string \<Rightarrow> bool" where
  "ValidString [] = True"
| "ValidString (c # s) =
     (case DecodeRune (c # s) of
        (r, n) \<Rightarrow> \<not> (r = RuneError \<and> n = 1) \<and> ValidString (drop n (c # s)))"
  by pat_completeness auto

lemma DecodeRune_size: "DecodeRune (c # s) = (r, n) \<Longrightarrow> 1 \<le> n"
  by (auto simp: Let_def split: if_splits list.splits)

lemma DecodeRune_drop: "DecodeRune (c # s) = (r, n) \<Longrightarrow> length (drop n (c # s)) < length (c # s)"
  by (drule DecodeRune_size) simp

termination ValidString
  by (relation "measure length") (auto simp del: DecodeRune.simps dest!: DecodeRune_size [OF sym])

section \<open>Writing JSON: package encoding/json, Marshal\<close>

definition hex :: "nat \<Rightarrow> char" where
  "hex n = (if n < 10 then char_of (48 + n) else char_of (87 + n))"

text \<open>
  \<^verbatim>\<open>htmlSafeSet\<close>: the ASCII bytes written as they are; the others are the control
  characters, the quote, the backslash and the three characters escaped for HTML.
\<close>

definition htmlSafe :: "nat \<Rightarrow> bool" where
  "htmlSafe b \<longleftrightarrow> 0x20 \<le> b \<and> b \<noteq> 0x22 \<and> b \<noteq> 0x26 \<and> b \<noteq> 0x3C \<and> b \<noteq> 0x3E \<and> b \<noteq> 0x5C"

text \<open>
  The loop of \<^verbatim>\<open>encodeState.string\<close> with HTML escaping on, between the two quotes.
  An invalid byte is written as the escape of U+FFFD, and U+2028 and U+2029 are always
  escaped.
\<close>

function encodeStringBody :: "string \<Rightarrow> string" where
  "encodeStringBody [] = []"
| "encodeStringBody (c # s) =
     (let b = byte c in
      if b < 0x80 then
        (if htmlSafe b then [c]
         else if c = CHR 0x5C \<or> c = CHR 0x22 then [CHR 0x5C, c]
         else if c = CHR 0x0A then [CHR 0x5C, CHR ''n'']
         else if c = CHR 0x0D then [CHR 0x5C, CHR ''r'']
         else if c = CHR 0x09 then [CHR 0x5C, CHR ''t'']
         else [CHR 0x5C, CHR ''u'', CHR ''0'', CHR ''0'', hex (b div 16), hex (b mod 16)])
        @ encodeStringBody s
      else
        (case DecodeRune (c # s) of
           (r, n) \<Rightarrow>
             if r = RuneError \<and> n = 1 then CHR 0x5C # ''ufffd'' @ encodeStringBody (drop n (c # s))
             else if r = 0x2028 \<or> r = 0x2029
             then CHR 0x5C # ''u202'' @ [hex (r mod 16)] @ encodeStringBody (drop n (c # s))
             else take n (c # s) @ encodeStringBody (drop n (c # s))))"
  by pat_completeness auto
termination
  by (relation "measure length") (auto simp del: DecodeRune.simps dest!: DecodeRune_size [OF sym])

definition encodeString :: "string \<Rightarrow> string" where
  "encodeString s = CHR 0x22 # encodeStringBody s @ [CHR 0x22]"

text \<open>\<^verbatim>\<open>strconv.FormatInt(i, 10)\<close>.\<close>

function natDigits :: "nat \<Rightarrow> string" where
  "natDigits n = (if n < 10 then [char_of (48 + n)] else natDigits (n div 10) @ [char_of (48 + n mod 10)])"
  by pat_completeness auto
termination
  by (relation "measure id") auto

declare natDigits.simps [simp del]

definition FormatInt :: "int \<Rightarrow> string" where
  "FormatInt i = (if i < 0 then CHR ''-'' # natDigits (nat (- i)) else natDigits (nat i))"

section \<open>Reading JSON: the scanner\<close>

datatype json =
    JNull
  | JBool bool
  | JNumber string
  | JString string
  | JArray "json list"
  | JObject "(string \<times> json) list"

definition isSpace :: "char \<Rightarrow> bool" where
  "isSpace c \<longleftrightarrow> c = CHR '' '' \<or> c = CHR 0x09 \<or> c = CHR 0x0D \<or> c = CHR 0x0A"

definition skipSpace :: "string \<Rightarrow> string" where
  "skipSpace s = dropWhile isSpace s"

definition isDigit :: "char \<Rightarrow> bool" where
  "isDigit c \<longleftrightarrow> 48 \<le> byte c \<and> byte c \<le> 57"

definition hexVal :: "char \<Rightarrow> nat option" where
  "hexVal c =
     (let b = byte c in
      if 48 \<le> b \<and> b \<le> 57 then Some (b - 48)
      else if 97 \<le> b \<and> b \<le> 102 then Some (b - 87)
      else if 65 \<le> b \<and> b \<le> 70 then Some (b - 55)
      else None)"

text \<open>\<^verbatim>\<open>getu4\<close>: the value of a \<^verbatim>\<open>\uXXXX\<close> at the head of the bytes, if there is one.\<close>

fun getu4 :: "string \<Rightarrow> nat option" where
  "getu4 (c0 # c1 # h1 # h2 # h3 # h4 # rest) =
     (if c0 = CHR 0x5C \<and> c1 = CHR ''u''
      then (case (hexVal h1, hexVal h2, hexVal h3, hexVal h4) of
              (Some a, Some b, Some c, Some d) \<Rightarrow> Some (((a * 16 + b) * 16 + c) * 16 + d)
            | _ \<Rightarrow> None)
      else None)"
| "getu4 _ = None"

text \<open>The one-character escapes the scanner lets through, with the byte each stands for.\<close>

definition unescape :: "char \<Rightarrow> char option" where
  "unescape e =
     (if e = CHR 0x22 \<or> e = CHR 0x5C \<or> e = CHR ''/'' then Some e
      else if e = CHR ''b'' then Some (CHR 0x08)
      else if e = CHR ''f'' then Some (CHR 0x0C)
      else if e = CHR ''n'' then Some (CHR 0x0A)
      else if e = CHR ''r'' then Some (CHR 0x0D)
      else if e = CHR ''t'' then Some (CHR 0x09)
      else None)"

definition prepend :: "string \<Rightarrow> (string \<times> string) option \<Rightarrow> (string \<times> string) option" where
  "prepend xs r = (case r of None \<Rightarrow> None | Some (str, rest) \<Rightarrow> Some (xs @ str, rest))"

text \<open>
  A string literal after its opening quote: the text it stands for and the bytes after
  the closing quote. This is the scanner (which ends the literal at the first quote
  that is not escaped and refuses control characters and unknown escapes) and
  \<^verbatim>\<open>unquote\<close> (which decodes the escapes, pairs surrogates, and rewrites every
  invalid byte and every lone surrogate as U+FFFD) in one pass.
\<close>

function parseStringBody :: "string \<Rightarrow> (string \<times> string) option" where
  "parseStringBody [] = None"
| "parseStringBody (c # s) =
     (if c = CHR 0x22 then Some ([], s)
      else if c = CHR 0x5C then
        (case s of
           [] \<Rightarrow> None
         | e # s' \<Rightarrow>
             if e = CHR ''u'' then
               (case getu4 (c # s) of
                  None \<Rightarrow> None
                | Some rr \<Rightarrow>
                    if 0xD800 \<le> rr \<and> rr < 0xE000 then
                      (case getu4 (drop 5 s) of
                         None \<Rightarrow> prepend (EncodeRune RuneError) (parseStringBody (drop 5 s))
                       | Some rr1 \<Rightarrow>
                           if rr < 0xDC00 \<and> 0xDC00 \<le> rr1 \<and> rr1 < 0xE000
                           then prepend (EncodeRune ((rr - 0xD800) * 1024 + (rr1 - 0xDC00) + 0x10000))
                                  (parseStringBody (drop 11 s))
                           else prepend (EncodeRune RuneError) (parseStringBody (drop 5 s)))
                    else prepend (EncodeRune rr) (parseStringBody (drop 5 s)))
             else
               (case unescape e of
                  None \<Rightarrow> None
                | Some ch \<Rightarrow> prepend [ch] (parseStringBody s')))
      else if byte c < 0x20 then None
      else if byte c < 0x80 then prepend [c] (parseStringBody s)
      else
        (case DecodeRune (c # s) of
           (rr, n) \<Rightarrow> prepend (EncodeRune rr) (parseStringBody (drop n (c # s)))))"
  by pat_completeness auto
termination
  by (relation "measure length") (auto simp del: DecodeRune.simps getu4.simps dest!: DecodeRune_size [OF sym])

text \<open>
  A number literal: optional minus, then 0 or a digit from 1 to 9 followed by digits,
  then an optional fraction and an optional exponent, each with at least one digit.
  The literal and the bytes after it.
\<close>

definition scanDigits :: "string \<Rightarrow> (string \<times> string) option" where
  "scanDigits s = (case takeWhile isDigit s of [] \<Rightarrow> None | ds \<Rightarrow> Some (ds, dropWhile isDigit s))"

definition scanInt :: "string \<Rightarrow> (string \<times> string) option" where
  "scanInt s =
     (case s of
        [] \<Rightarrow> None
      | c # t \<Rightarrow>
          if c = CHR ''0'' then Some ([c], t)
          else if isDigit c then Some (c # takeWhile isDigit t, dropWhile isDigit t)
          else None)"

definition scanFrac :: "string \<Rightarrow> (string \<times> string) option" where
  "scanFrac s =
     (case s of
        [] \<Rightarrow> Some ([], s)
      | c # t \<Rightarrow>
          if c = CHR ''.''
          then (case scanDigits t of None \<Rightarrow> None | Some (ds, rest) \<Rightarrow> Some (c # ds, rest))
          else Some ([], s))"

definition scanExp :: "string \<Rightarrow> (string \<times> string) option" where
  "scanExp s =
     (case s of
        [] \<Rightarrow> Some ([], s)
      | c # t \<Rightarrow>
          if c = CHR ''e'' \<or> c = CHR ''E''
          then (case t of
                  [] \<Rightarrow> None
                | g # u \<Rightarrow>
                    if g = CHR ''+'' \<or> g = CHR ''-''
                    then (case scanDigits u of None \<Rightarrow> None | Some (ds, rest) \<Rightarrow> Some (c # g # ds, rest))
                    else (case scanDigits t of None \<Rightarrow> None | Some (ds, rest) \<Rightarrow> Some (c # ds, rest)))
          else Some ([], s))"

definition parseNumber :: "string \<Rightarrow> (string \<times> string) option" where
  "parseNumber s =
     (let (sign, s0) = (case s of [] \<Rightarrow> ([], s) | c # t \<Rightarrow> if c = CHR ''-'' then ([c], t) else ([], s)) in
      case scanInt s0 of
        None \<Rightarrow> None
      | Some (i, s1) \<Rightarrow>
          (case scanFrac s1 of
             None \<Rightarrow> None
           | Some (f, s2) \<Rightarrow>
               (case scanExp s2 of
                  None \<Rightarrow> None
                | Some (e, s3) \<Rightarrow> Some (sign @ i @ f @ e, s3))))"

text \<open>
  The result of reading a value: the value and the bytes after it, a syntax error,
  or the recursion budget used up.
\<close>

datatype scan = Ok json string | Bad | Fuel

definition maxNestingDepth :: nat where
  "maxNestingDepth = 10000"

definition stripPrefix :: "string \<Rightarrow> string \<Rightarrow> string option" where
  "stripPrefix p s = (if take (length p) s = p then Some (drop (length p) s) else None)"

text \<open>
  A value whose first byte is at the head of the input, the members of an object from
  the first byte of a key on, and the elements of an array from the first byte of an
  element on. The first argument bounds the number of nested calls, the second counts
  the objects and arrays that are open; one more than \<^const>\<open>maxNestingDepth\<close> is an
  error.
\<close>

fun parseValue :: "nat \<Rightarrow> nat \<Rightarrow> string \<Rightarrow> scan"
  and parseMembers :: "nat \<Rightarrow> nat \<Rightarrow> (string \<times> json) list \<Rightarrow> string \<Rightarrow> scan"
  and parseElements :: "nat \<Rightarrow> nat \<Rightarrow> json list \<Rightarrow> string \<Rightarrow> scan" where
  "parseValue 0 depth s = Fuel"
| "parseValue (Suc k) depth [] = Bad"
| "parseValue (Suc k) depth (c # s) =
     (if c = CHR ''{'' then
        (if maxNestingDepth \<le> depth then Bad
         else
           (case skipSpace s of
              [] \<Rightarrow> Bad
            | c' # s' \<Rightarrow>
                if c' = CHR ''}'' then Ok (JObject []) s'
                else parseMembers k (Suc depth) [] (c' # s')))
      else if c = CHR ''['' then
        (if maxNestingDepth \<le> depth then Bad
         else
           (case skipSpace s of
              [] \<Rightarrow> Bad
            | c' # s' \<Rightarrow>
                if c' = CHR '']'' then Ok (JArray []) s'
                else parseElements k (Suc depth) [] (c' # s')))
      else if c = CHR 0x22 then
        (case parseStringBody s of
           None \<Rightarrow> Bad
         | Some (str, rest) \<Rightarrow> Ok (JString str) rest)
      else if c = CHR ''-'' \<or> isDigit c then
        (case parseNumber (c # s) of
           None \<Rightarrow> Bad
         | Some (lit, rest) \<Rightarrow> Ok (JNumber lit) rest)
      else if c = CHR ''t'' then
        (case stripPrefix ''rue'' s of None \<Rightarrow> Bad | Some rest \<Rightarrow> Ok (JBool True) rest)
      else if c = CHR ''f'' then
        (case stripPrefix ''alse'' s of None \<Rightarrow> Bad | Some rest \<Rightarrow> Ok (JBool False) rest)
      else if c = CHR ''n'' then
        (case stripPrefix ''ull'' s of None \<Rightarrow> Bad | Some rest \<Rightarrow> Ok JNull rest)
      else Bad)"
| "parseMembers 0 depth acc s = Fuel"
| "parseMembers (Suc k) depth acc s =
     (case s of
        [] \<Rightarrow> Bad
      | c # s1 \<Rightarrow>
          if c \<noteq> CHR 0x22 then Bad
          else
            (case parseStringBody s1 of
               None \<Rightarrow> Bad
             | Some (key, s2) \<Rightarrow>
                 (case skipSpace s2 of
                    [] \<Rightarrow> Bad
                  | c2 # s3 \<Rightarrow>
                      if c2 \<noteq> CHR '':'' then Bad
                      else
                        (case parseValue k depth (skipSpace s3) of
                           Bad \<Rightarrow> Bad
                         | Fuel \<Rightarrow> Fuel
                         | Ok v s4 \<Rightarrow>
                             (case skipSpace s4 of
                                [] \<Rightarrow> Bad
                              | c4 # s5 \<Rightarrow>
                                  if c4 = CHR '','' then parseMembers k depth (acc @ [(key, v)]) (skipSpace s5)
                                  else if c4 = CHR ''}'' then Ok (JObject (acc @ [(key, v)])) s5
                                  else Bad)))))"
| "parseElements 0 depth acc s = Fuel"
| "parseElements (Suc k) depth acc s =
     (case parseValue k depth s of
        Bad \<Rightarrow> Bad
      | Fuel \<Rightarrow> Fuel
      | Ok v s1 \<Rightarrow>
          (case skipSpace s1 of
             [] \<Rightarrow> Bad
           | c # s2 \<Rightarrow>
               if c = CHR '','' then parseElements k depth (acc @ [v]) (skipSpace s2)
               else if c = CHR '']'' then Ok (JArray (acc @ [v])) s2
               else Bad))"

text \<open>
  A whole document, as \<^verbatim>\<open>checkValid\<close> accepts it: one value with white space around
  it. The budget is twice the length of the input and one more, which is never used up
  (see \<open>parseJSON_fuel\<close> below).
\<close>

definition parseJSON :: "string \<Rightarrow> scan" where
  "parseJSON s =
     (case parseValue (Suc (2 * length s)) 0 (skipSpace s) of
        Ok v rest \<Rightarrow> if skipSpace rest = [] then Ok v [] else Bad
      | Bad \<Rightarrow> Bad
      | Fuel \<Rightarrow> Fuel)"

text \<open>A byte that a string literal holds as it is: printable ASCII but the quote and the backslash.\<close>

definition plainChar :: "char \<Rightarrow> bool" where
  "plainChar c \<longleftrightarrow> 0x20 \<le> byte c \<and> byte c < 0x80 \<and> byte c \<noteq> 0x22 \<and> byte c \<noteq> 0x5C"

section \<open>Reading JSON: Unmarshal into a struct\<close>

datatype json_error = SyntaxError | UnmarshalTypeError string | OutOfFuel

text \<open>
  \<^verbatim>\<open>strconv.ParseInt(s, 10, 64)\<close>, which is also what \<^verbatim>\<open>strconv.Atoi\<close> computes where
  \<^verbatim>\<open>int\<close> has 64 bits: an optional sign, then digits only and at least one, and a
  value that fits.
\<close>

definition digitsValue :: "string \<Rightarrow> int" where
  "digitsValue ds = foldl (\<lambda>acc c. acc * 10 + (int (byte c) - 48)) 0 ds"

definition ParseInt :: "string \<Rightarrow> int option" where
  "ParseInt s =
     (case s of
        [] \<Rightarrow> None
      | c # t \<Rightarrow>
          (let neg = (c = CHR ''-'');
               ds = (if c = CHR ''+'' \<or> c = CHR ''-'' then t else s)
           in
             if ds = [] \<or> \<not> list_all isDigit ds then None
             else if neg then (if 2 ^ 63 < digitsValue ds then None else Some (- digitsValue ds))
             else (if 2 ^ 63 \<le> digitsValue ds then None else Some (digitsValue ds))))"

text \<open>
  \<^verbatim>\<open>literalStore\<close> and the array and object cases of \<^verbatim>\<open>d.value\<close>, for a field of kind
  string and for one of kind int: the struct after the store and the description of
  the type error, if there is one. null leaves the field as it is.
\<close>

fun storeString :: "(string \<Rightarrow> 'p \<Rightarrow> 'p) \<Rightarrow> json \<Rightarrow> 'p \<Rightarrow> 'p \<times> string option" where
  "storeString upd JNull p = (p, None)"
| "storeString upd (JBool b) p = (p, Some ''bool'')"
| "storeString upd (JNumber n) p = (p, Some ''number'')"
| "storeString upd (JString s) p = (upd s p, None)"
| "storeString upd (JArray xs) p = (p, Some ''array'')"
| "storeString upd (JObject ms) p = (p, Some ''object'')"

fun storeInt :: "(64 word \<Rightarrow> 'p \<Rightarrow> 'p) \<Rightarrow> json \<Rightarrow> 'p \<Rightarrow> 'p \<times> string option" where
  "storeInt upd JNull p = (p, None)"
| "storeInt upd (JBool b) p = (p, Some ''bool'')"
| "storeInt upd (JNumber n) p =
     (case ParseInt n of
        None \<Rightarrow> (p, Some (''number '' @ n))
      | Some i \<Rightarrow> (upd (word_of_int i) p, None))"
| "storeInt upd (JString s) p = (p, Some ''string'')"
| "storeInt upd (JArray xs) p = (p, Some ''array'')"
| "storeInt upd (JObject ms) p = (p, Some ''object'')"

text \<open>
  The three ways a key is compared with a field name when it is not the name itself
  (\<^verbatim>\<open>foldFunc\<close> chooses by the name). \<^verbatim>\<open>caseMask\<close> clears bit 5 of a byte. The names
  of the policy structs are ASCII, so \<^verbatim>\<open>bytes.EqualFold\<close> is never chosen.
\<close>

definition caseMask :: "nat \<Rightarrow> nat" where
  "caseMask b = (if (b div 32) mod 2 = 1 then b - 32 else b)"

definition isLetter :: "nat \<Rightarrow> bool" where
  "isLetter b \<longleftrightarrow> 65 \<le> caseMask b \<and> caseMask b \<le> 90"

fun simpleLetterEqualFold :: "string \<Rightarrow> string \<Rightarrow> bool" where
  "simpleLetterEqualFold [] [] = True"
| "simpleLetterEqualFold (sb # s) (tb # t) =
     (caseMask (byte sb) = caseMask (byte tb) \<and> simpleLetterEqualFold s t)"
| "simpleLetterEqualFold _ _ = False"

fun asciiEqualFold :: "string \<Rightarrow> string \<Rightarrow> bool" where
  "asciiEqualFold [] [] = True"
| "asciiEqualFold (sb # s) (tb # t) =
     ((sb = tb \<or> (isLetter (byte sb) \<and> caseMask (byte sb) = caseMask (byte tb))) \<and> asciiEqualFold s t)"
| "asciiEqualFold _ _ = False"

function equalFoldRight :: "string \<Rightarrow> string \<Rightarrow> bool" where
  "equalFoldRight [] t = (t = [])"
| "equalFoldRight (sb # s) [] = False"
| "equalFoldRight (sb # s) (tb # t) =
     (if byte tb < 0x80 then
        (sb = tb \<or> (isLetter (byte sb) \<and> caseMask (byte sb) = caseMask (byte tb))) \<and> equalFoldRight s t
      else
        (case DecodeRune (tb # t) of
           (tr, n) \<Rightarrow>
             (if sb = CHR ''s'' \<or> sb = CHR ''S'' then tr = 0x17F
              else if sb = CHR ''k'' \<or> sb = CHR ''K'' then tr = 0x212A
              else False)
             \<and> equalFoldRight s (drop n (tb # t))))"
  by pat_completeness auto
termination
  by (relation "measure (\<lambda>(s, t). length s)") auto

definition foldFunc :: "string \<Rightarrow> string \<Rightarrow> string \<Rightarrow> bool" where
  "foldFunc name =
     (if \<exists>c \<in> set name. isLetter (byte c) \<and> (caseMask (byte c) = 75 \<or> caseMask (byte c) = 83)
      then equalFoldRight
      else if \<exists>c \<in> set name. \<not> isLetter (byte c) then asciiEqualFold
      else simpleLetterEqualFold)"

text \<open>
  The field a key stands for: the one with that very name, else the first whose name
  folds to the key. A field is its name and its store.
\<close>

type_synonym 'p field = "string \<times> (json \<Rightarrow> 'p \<Rightarrow> 'p \<times> string option)"

definition findField :: "'p field list \<Rightarrow> string \<Rightarrow> 'p field option" where
  "findField flds key =
     (case filter (\<lambda>f. fst f = key) flds of
        f # fs \<Rightarrow> Some f
      | [] \<Rightarrow>
          (case filter (\<lambda>f. foldFunc (fst f) (fst f) key) flds of
             f # fs \<Rightarrow> Some f
           | [] \<Rightarrow> None))"

text \<open>
  The members of an object in order; a key without a field is skipped, the first type
  error is kept and decoding goes on.
\<close>

fun decodeObject :: "'p field list \<Rightarrow> (string \<times> json) list \<Rightarrow> 'p \<Rightarrow> string option \<Rightarrow> 'p \<times> string option" where
  "decodeObject flds [] p err = (p, err)"
| "decodeObject flds ((key, v) # ms) p err =
     (case findField flds key of
        None \<Rightarrow> decodeObject flds ms p err
      | Some f \<Rightarrow>
          (case snd f v p of
             (p', e) \<Rightarrow> decodeObject flds ms p' (case err of None \<Rightarrow> e | Some x \<Rightarrow> err)))"

text \<open>
  \<^verbatim>\<open>json.Unmarshal\<close> into a pointer to a struct with the given fields, which holds
  \<^verbatim>\<open>zero\<close> before the call: the document is checked as a whole first; null stores
  nothing; anything but an object is a type error.
\<close>

definition json_Unmarshal :: "'p field list \<Rightarrow> 'p \<Rightarrow> string \<Rightarrow> json_error + 'p" where
  "json_Unmarshal flds zero data =
     (case parseJSON data of
        Bad \<Rightarrow> Inl SyntaxError
      | Fuel \<Rightarrow> Inl OutOfFuel
      | Ok v rest \<Rightarrow>
          (case v of
             JNull \<Rightarrow> Inr zero
           | JBool b \<Rightarrow> Inl (UnmarshalTypeError ''bool'')
           | JNumber n \<Rightarrow> Inl (UnmarshalTypeError ''number'')
           | JString s \<Rightarrow> Inl (UnmarshalTypeError ''string'')
           | JArray xs \<Rightarrow> Inl (UnmarshalTypeError ''array'')
           | JObject ms \<Rightarrow>
               (case decodeObject flds ms zero None of
                  (p, None) \<Rightarrow> Inr p
                | (p, Some e) \<Rightarrow> Inl (UnmarshalTypeError e))))"

section \<open>Package api: the policies\<close>

type_synonym PolicyType = string
type_synonym PipelineApprovalValue = string
type_synonym WindowCron = string

definition PolicyTypePipelineApproval :: PolicyType where
  "PolicyTypePipelineApproval = ''bb.policy.pipeline-approval''"

definition PolicyTypeBackupPlan :: PolicyType where
  "PolicyTypeBackupPlan = ''bb.policy.backup-plan''"

definition PolicyTypeWindow :: PolicyType where
  "PolicyTypeWindow = ''bb.policy.window''"

definition PipelineApprovalValueManualNever :: PipelineApprovalValue where
  "PipelineApprovalValueManualNever = ''MANUAL_APPROVAL_NEVER''"

definition PipelineApprovalValueManualAlways :: PipelineApprovalValue where
  "PipelineApprovalValueManualAlways = ''MANUAL_APPROVAL_ALWAYS''"

definition WindowCronUnset :: WindowCron where
  "WindowCronUnset = []"

text \<open>The map \<^verbatim>\<open>PolicyTypes\<close>; a key that is not in it reads as false.\<close>

definition PolicyTypes :: "PolicyType \<Rightarrow> bool" where
  "PolicyTypes pType \<longleftrightarrow>
     pType = PolicyTypePipelineApproval \<or> pType = PolicyTypeBackupPlan \<or> pType = PolicyTypeWindow"

record PipelineApprovalPolicy =
  Value :: PipelineApprovalValue

text \<open>\<^verbatim>\<open>type WindowType int\<close>, an int of 64 bits, with its three constants.\<close>

type_synonym WindowType = "64 word"

definition WindowTypeAllow :: WindowType where
  "WindowTypeAllow = 0"

definition WindowTypeDeny :: WindowType where
  "WindowTypeDeny = 1"

definition WindowTypeUnknown :: WindowType where
  "WindowTypeUnknown = 2"

record WindowPolicy =
  WindowType :: WindowType
  WindowCron :: WindowCron

datatype cron_error =
    EmptySpec
  | BadLocation string
  | DescriptorsNotAccepted
  | FieldCount nat
  | FailedToParseInt string
  | NegativeNumber string
  | TooManyHyphens string
  | TooManySlashes string
  | BelowMinimum string
  | AboveMaximum string
  | BeyondEnd string
  | ZeroStep string

datatype PolicyError =
    InvalidPolicyType PolicyType
  | FailedToUnmarshal PolicyType string json_error
  | InvalidApprovalValue string
  | InvalidBackupPlanSchedule BackupPlanPolicySchedule
  | CronError cron_error
  | MarshalError json_error

text \<open>
  \<^verbatim>\<open>json.Marshal\<close> of the three structs: the fields in the order of the declaration,
  under the names of their tags. It has no error for a struct of strings and ints.
\<close>

definition Marshal_PipelineApprovalPolicy :: "PipelineApprovalPolicy \<Rightarrow> json_error + string" where
  \<open>Marshal_PipelineApprovalPolicy pa = Inr (''{"value":'' @ encodeString (Value pa) @ ''}'')\<close>

definition Marshal_BackupPlanPolicy :: "BackupPlanPolicy \<Rightarrow> json_error + string" where
  \<open>Marshal_BackupPlanPolicy bp = Inr (''{"schedule":'' @ encodeString (Schedule bp) @ ''}'')\<close>

definition Marshal_WindowPolicy :: "WindowPolicy \<Rightarrow> json_error + string" where
  \<open>Marshal_WindowPolicy ap =
     Inr (''{"windowType":'' @ FormatInt (sint (WindowType ap))
          @ '',"windowCron":'' @ encodeString (WindowCron ap) @ ''}'')\<close>

definition PipelineApprovalPolicy_String :: "PipelineApprovalPolicy \<Rightarrow> PolicyError + string" where
  "PipelineApprovalPolicy_String pa =
     (case Marshal_PipelineApprovalPolicy pa of Inl err \<Rightarrow> Inl (MarshalError err) | Inr s \<Rightarrow> Inr s)"

definition BackupPlanPolicy_String :: "BackupPlanPolicy \<Rightarrow> PolicyError + string" where
  "BackupPlanPolicy_String bp =
     (case Marshal_BackupPlanPolicy bp of Inl err \<Rightarrow> Inl (MarshalError err) | Inr s \<Rightarrow> Inr s)"

definition WindowPolicy_String :: "WindowPolicy \<Rightarrow> PolicyError + string" where
  "WindowPolicy_String ap =
     (case Marshal_WindowPolicy ap of Inl err \<Rightarrow> Inl (MarshalError err) | Inr s \<Rightarrow> Inr s)"

definition PipelineApprovalPolicy_fields :: "PipelineApprovalPolicy field list" where
  "PipelineApprovalPolicy_fields = [(''value'', storeString (\<lambda>v p. p\<lparr>Value := v\<rparr>))]"

definition BackupPlanPolicy_fields :: "BackupPlanPolicy field list" where
  "BackupPlanPolicy_fields = [(''schedule'', storeString (\<lambda>v p. p\<lparr>Schedule := v\<rparr>))]"

definition WindowPolicy_fields :: "WindowPolicy field list" where
  "WindowPolicy_fields =
     [(''windowType'', storeInt (\<lambda>v p. p\<lparr>WindowType := v\<rparr>)),
      (''windowCron'', storeString (\<lambda>v p. p\<lparr>WindowCron := v\<rparr>))]"

definition UnmarshalPipelineApprovalPolicy :: "string \<Rightarrow> PolicyError + PipelineApprovalPolicy" where
  "UnmarshalPipelineApprovalPolicy payload =
     (case json_Unmarshal PipelineApprovalPolicy_fields \<lparr>Value = []\<rparr> payload of
        Inl err \<Rightarrow> Inl (FailedToUnmarshal PolicyTypePipelineApproval payload err)
      | Inr pa \<Rightarrow> Inr pa)"

definition UnmarshalBackupPlanPolicy :: "string \<Rightarrow> PolicyError + BackupPlanPolicy" where
  "UnmarshalBackupPlanPolicy payload =
     (case json_Unmarshal BackupPlanPolicy_fields \<lparr>Schedule = []\<rparr> payload of
        Inl err \<Rightarrow> Inl (FailedToUnmarshal PolicyTypeBackupPlan payload err)
      | Inr bp \<Rightarrow> Inr bp)"

definition UnmarshalWindowPolicy :: "string \<Rightarrow> PolicyError + WindowPolicy" where
  "UnmarshalWindowPolicy payload =
     (case json_Unmarshal WindowPolicy_fields \<lparr>WindowType = 0, WindowCron = []\<rparr> payload of
        Inl err \<Rightarrow> Inl (FailedToUnmarshal PolicyTypeWindow payload err)
      | Inr wp \<Rightarrow> Inr wp)"

section \<open>Package strings\<close>

text \<open>The runes of a string from left to right, each with its bytes.\<close>

function runes :: "string \<Rightarrow> (nat \<times> string) list" where
  "runes [] = []"
| "runes (c # s) = (case DecodeRune (c # s) of (r, n) \<Rightarrow> (r, take n (c # s)) # runes (drop n (c # s)))"
  by pat_completeness auto
termination
  by (relation "measure length") (auto simp del: DecodeRune.simps dest!: DecodeRune_size [OF sym])

text \<open>\<^verbatim>\<open>unicode.IsSpace\<close>.\<close>

definition IsSpace :: "nat \<Rightarrow> bool" where
  "IsSpace r \<longleftrightarrow>
     (0x09 \<le> r \<and> r \<le> 0x0D) \<or> r = 0x20 \<or> r = 0x85 \<or> r = 0xA0 \<or> r = 0x1680
     \<or> (0x2000 \<le> r \<and> r \<le> 0x200A) \<or> r = 0x2028 \<or> r = 0x2029 \<or> r = 0x202F
     \<or> r = 0x205F \<or> r = 0x3000"

text \<open>\<^verbatim>\<open>strings.FieldsFunc\<close>: the maximal runs of runes that the predicate rejects.\<close>

fun fieldsOf :: "(nat \<Rightarrow> bool) \<Rightarrow> (nat \<times> string) list \<Rightarrow> string \<Rightarrow> string list" where
  "fieldsOf f [] cur = (if cur = [] then [] else [cur])"
| "fieldsOf f ((r, bs) # rs) cur =
     (if f r then (if cur = [] then [] else [cur]) @ fieldsOf f rs []
      else fieldsOf f rs (cur @ bs))"

definition FieldsFunc :: "string \<Rightarrow> (nat \<Rightarrow> bool) \<Rightarrow> string list" where
  "FieldsFunc s f = fieldsOf f (runes s) []"

definition Fields :: "string \<Rightarrow> string list" where
  "Fields s = FieldsFunc s IsSpace"

definition TrimSpace :: "string \<Rightarrow> string" where
  "TrimSpace s =
     concat (map snd (rev (dropWhile (\<lambda>x. IsSpace (fst x)) (rev (dropWhile (\<lambda>x. IsSpace (fst x)) (runes s))))))"

text \<open>\<^verbatim>\<open>strings.Split\<close> on a separator of one byte.\<close>

fun Split :: "string \<Rightarrow> char \<Rightarrow> string list" where
  "Split [] sep = [[]]"
| "Split (x # xs) sep =
     (if x = sep then [] # Split xs sep
      else (case Split xs sep of [] \<Rightarrow> [[x]] | y # ys \<Rightarrow> (x # y) # ys))"

definition HasPrefix :: "string \<Rightarrow> string \<Rightarrow> bool" where
  "HasPrefix s prefix \<longleftrightarrow> take (length prefix) s = prefix"

text \<open>\<^verbatim>\<open>strings.Index\<close> for a byte; None is -1.\<close>

definition Index :: "string \<Rightarrow> char \<Rightarrow> nat option" where
  "Index s c = (if c \<in> set s then Some (length (takeWhile (\<lambda>x. x \<noteq> c) s)) else None)"

text \<open>
  \<^verbatim>\<open>strings.ToLower\<close> as far as its result is ASCII, which is all a lookup among
  ASCII names can see: the runes whose lower case is an ASCII letter are the capital
  letters, U+0130 and the Kelvin sign U+212A.
\<close>

fun lowerRunes :: "(nat \<times> string) list \<Rightarrow> string option" where
  "lowerRunes [] = Some []"
| "lowerRunes ((r, bs) # rs) =
     (case (if r < 0x80 then Some (if 65 \<le> r \<and> r \<le> 90 then char_of (r + 32) else char_of r)
            else if r = 0x130 then Some (CHR ''i'')
            else if r = 0x212A then Some (CHR ''k'')
            else None) of
        None \<Rightarrow> None
      | Some c \<Rightarrow> (case lowerRunes rs of None \<Rightarrow> None | Some cs \<Rightarrow> Some (c # cs)))"

definition ToLowerASCII :: "string \<Rightarrow> string option" where
  "ToLowerASCII s = lowerRunes (runes s)"

section \<open>Package cron: the parser of the window policy\<close>

text \<open>
  The parser is the one \<^verbatim>\<open>GetWindowCronParser\<close> builds: the options Minute, Hour,
  Dom, Month and Dow, so five fields, no seconds, no optional field and no descriptor.
  \<^verbatim>\<open>ValidatePolicy\<close> drops the schedule \<^verbatim>\<open>Parse\<close> returns, so only the acceptance
  is kept here.
\<close>

record bounds =
  min_bound :: nat
  max_bound :: nat
  names :: "(string \<times> nat) list option"

definition seconds :: bounds where
  "seconds = \<lparr>min_bound = 0, max_bound = 59, names = None\<rparr>"

definition minutes :: bounds where
  "minutes = \<lparr>min_bound = 0, max_bound = 59, names = None\<rparr>"

definition hours :: bounds where
  "hours = \<lparr>min_bound = 0, max_bound = 23, names = None\<rparr>"

definition dom :: bounds where
  "dom = \<lparr>min_bound = 1, max_bound = 31, names = None\<rparr>"

definition months :: bounds where
  "months = \<lparr>min_bound = 1, max_bound = 12, names = Some
     [(''jan'', 1), (''feb'', 2), (''mar'', 3), (''apr'', 4), (''may'', 5), (''jun'', 6),
      (''jul'', 7), (''aug'', 8), (''sep'', 9), (''oct'', 10), (''nov'', 11), (''dec'', 12)]\<rparr>"

definition dow :: bounds where
  "dow = \<lparr>min_bound = 0, max_bound = 6, names = Some
     [(''sun'', 0), (''mon'', 1), (''tue'', 2), (''wed'', 3), (''thu'', 4), (''fri'', 5), (''sat'', 6)]\<rparr>"

definition mustParseInt :: "string \<Rightarrow> cron_error + nat" where
  "mustParseInt expr =
     (case ParseInt expr of
        None \<Rightarrow> Inl (FailedToParseInt expr)
      | Some num \<Rightarrow> if num < 0 then Inl (NegativeNumber expr) else Inr (nat num))"

definition parseIntOrName :: "string \<Rightarrow> (string \<times> nat) list option \<Rightarrow> cron_error + nat" where
  "parseIntOrName expr nms =
     (case nms of
        None \<Rightarrow> mustParseInt expr
      | Some table \<Rightarrow>
          (case ToLowerASCII expr of
             None \<Rightarrow> mustParseInt expr
           | Some l \<Rightarrow>
               (case map_of table l of
                  Some namedInt \<Rightarrow> Inr namedInt
                | None \<Rightarrow> mustParseInt expr)))"

text \<open>
  \<^verbatim>\<open>getRange\<close>: number, or number-number, each with an optional /step; a star or a
  question mark is the whole range. None is the nil error.
\<close>

definition getRange :: "string \<Rightarrow> bounds \<Rightarrow> cron_error option" where
  "getRange expr r =
     (let rangeAndStep = Split expr (CHR ''/'');
          lowAndHigh = Split (hd rangeAndStep) (CHR ''-'');
          singleDigit = (length lowAndHigh = 1);
          startEnd =
            (if hd lowAndHigh = ''*'' \<or> hd lowAndHigh = ''?'' then Inr (min_bound r, max_bound r)
             else
               (case parseIntOrName (hd lowAndHigh) (names r) of
                  Inl err \<Rightarrow> Inl err
                | Inr start \<Rightarrow>
                    if length lowAndHigh = 1 then Inr (start, start)
                    else if length lowAndHigh = 2 then
                      (case parseIntOrName (lowAndHigh ! 1) (names r) of
                         Inl err \<Rightarrow> Inl err
                       | Inr end \<Rightarrow> Inr (start, end))
                    else Inl (TooManyHyphens expr)))
      in
        case startEnd of
          Inl err \<Rightarrow> Some err
        | Inr (start, end0) \<Rightarrow>
            (case (if length rangeAndStep = 1 then Inr (1, end0)
                   else if length rangeAndStep = 2 then
                     (case mustParseInt (rangeAndStep ! 1) of
                        Inl err \<Rightarrow> Inl err
                      | Inr step \<Rightarrow> Inr (step, if singleDigit then max_bound r else end0))
                   else Inl (TooManySlashes expr)) of
               Inl err \<Rightarrow> Some err
             | Inr (step, end) \<Rightarrow>
                 if start < min_bound r then Some (BelowMinimum expr)
                 else if end > max_bound r then Some (AboveMaximum expr)
                 else if start > end then Some (BeyondEnd expr)
                 else if step = 0 then Some (ZeroStep expr)
                 else None))"

text \<open>\<^verbatim>\<open>getField\<close>: the ranges between the commas, up to the first that fails.\<close>

fun getRanges :: "string list \<Rightarrow> bounds \<Rightarrow> cron_error option" where
  "getRanges [] r = None"
| "getRanges (expr # ranges) r =
     (case getRange expr r of Some err \<Rightarrow> Some err | None \<Rightarrow> getRanges ranges r)"

definition getField :: "string \<Rightarrow> bounds \<Rightarrow> cron_error option" where
  "getField field r = getRanges (FieldsFunc field (\<lambda>c. c = 0x2C)) r"

text \<open>
  \<^verbatim>\<open>normalizeFields\<close> for the five options: exactly five fields, with the default 0
  in front for the seconds.
\<close>

definition normalizeFields :: "string list \<Rightarrow> cron_error + string list" where
  "normalizeFields flds =
     (if length flds \<noteq> 5 then Inl (FieldCount (length flds)) else Inr (''0'' # flds))"

fun firstError :: "cron_error option list \<Rightarrow> cron_error option" where
  "firstError [] = None"
| "firstError (None # es) = firstError es"
| "firstError (Some err # es) = Some err"

datatype cron_result = Parsed | ParseError cron_error | ParsePanic

text \<open>
  \<^verbatim>\<open>Parser.Parse\<close>. A spec that begins with \<^verbatim>\<open>TZ=\<close> or \<^verbatim>\<open>CRON_TZ=\<close> names a time
  zone up to its first space; whether \<^verbatim>\<open>time.LoadLocation\<close> knows the zone depends
  on the host and is the parameter. Without a space the slice \<^verbatim>\<open>spec[eq+1 : i]\<close> has
  the upper bound -1 and the call panics.
\<close>

definition cron_Parse :: "(string \<Rightarrow> bool) \<Rightarrow> string \<Rightarrow> cron_result" where
  "cron_Parse LoadLocation spec =
     (if length spec = 0 then ParseError EmptySpec
      else
        (case (if HasPrefix spec ''TZ='' \<or> HasPrefix spec ''CRON_TZ=''
               then
                 (case (Index spec (CHR '' ''), Index spec (CHR ''='')) of
                    (Some i, Some eq) \<Rightarrow>
                      if LoadLocation (take (i - (eq + 1)) (drop (eq + 1) spec))
                      then Inr (TrimSpace (drop i spec))
                      else Inl (ParseError (BadLocation (take (i - (eq + 1)) (drop (eq + 1) spec))))
                  | _ \<Rightarrow> Inl ParsePanic)
               else Inr spec) of
           Inl stop \<Rightarrow> stop
         | Inr spec' \<Rightarrow>
             if HasPrefix spec' ''@'' then ParseError DescriptorsNotAccepted
             else
               (case normalizeFields (Fields spec') of
                  Inl err \<Rightarrow> ParseError err
                | Inr flds \<Rightarrow>
                    (case firstError
                            [getField (flds ! 0) seconds, getField (flds ! 1) minutes,
                             getField (flds ! 2) hours, getField (flds ! 3) dom,
                             getField (flds ! 4) months, getField (flds ! 5) dow] of
                       Some err \<Rightarrow> ParseError err
                     | None \<Rightarrow> Parsed))))"

section \<open>ValidatePolicy and GetDefaultPolicy\<close>

datatype validation = Valid | Invalid PolicyError | ValidationPanic

definition ValidatePolicy :: "(string \<Rightarrow> bool) \<Rightarrow> PolicyType \<Rightarrow> string \<Rightarrow> validation" where
  "ValidatePolicy LoadLocation pType payload =
     (if \<not> PolicyTypes pType then Invalid (InvalidPolicyType pType)
      else if payload = [] then Valid
      else if pType = PolicyTypePipelineApproval then
        (case UnmarshalPipelineApprovalPolicy payload of
           Inl err \<Rightarrow> Invalid err
         | Inr pa \<Rightarrow>
             if Value pa \<noteq> PipelineApprovalValueManualNever \<and> Value pa \<noteq> PipelineApprovalValueManualAlways
             then Invalid (InvalidApprovalValue payload)
             else Valid)
      else if pType = PolicyTypeBackupPlan then
        (case UnmarshalBackupPlanPolicy payload of
           Inl err \<Rightarrow> Invalid err
         | Inr bp \<Rightarrow>
             if Schedule bp \<noteq> BackupPlanPolicyScheduleUnset \<and> Schedule bp \<noteq> BackupPlanPolicyScheduleDaily
                \<and> Schedule bp \<noteq> BackupPlanPolicyScheduleWeekly
             then Invalid (InvalidBackupPlanSchedule (Schedule bp))
             else Valid)
      else if pType = PolicyTypeWindow then
        (case UnmarshalWindowPolicy payload of
           Inl err \<Rightarrow> Invalid err
         | Inr ap \<Rightarrow>
             (case cron_Parse LoadLocation (WindowCron ap) of
                ParseError err \<Rightarrow> Invalid (CronError err)
              | ParsePanic \<Rightarrow> ValidationPanic
              | Parsed \<Rightarrow> Valid))
      else Valid)"

definition GetDefaultPolicy :: "PolicyType \<Rightarrow> PolicyError + string" where
  "GetDefaultPolicy pType =
     (if pType = PolicyTypePipelineApproval
      then PipelineApprovalPolicy_String \<lparr>Value = PipelineApprovalValueManualAlways\<rparr>
      else if pType = PolicyTypeBackupPlan
      then BackupPlanPolicy_String \<lparr>Schedule = BackupPlanPolicyScheduleUnset\<rparr>
      else if pType = PolicyTypeWindow
      then WindowPolicy_String \<lparr>WindowType = WindowTypeUnknown, WindowCron = WindowCronUnset\<rparr>
      else Inr [])"

section \<open>Reading a trace\<close>

text \<open>The anomaly type a ledger request is for; log lines and driver calls have none.\<close>

fun requestType :: "event \<Rightarrow> AnomalyType option" where
  "requestType (Upsert u) = Some (AnomalyUpsert.Type u)"
| "requestType (Archive a) = Some (AnomalyArchive.Type a)"
| "requestType (DriverDump n) = None"
| "requestType (DriverFindMigrationHistoryList n) = None"
| "requestType DriverClose = None"
| "requestType (LogError m t) = None"
| "requestType (LogDebug m t) = None"

definition ledgerRequests :: "AnomalyType \<Rightarrow> event list \<Rightarrow> event list" where
  "ledgerRequests t es = filter (\<lambda>e. requestType e = Some t) es"

fun isDriverCall :: "event \<Rightarrow> bool" where
  "isDriverCall (DriverDump n) = True"
| "isDriverCall (DriverFindMigrationHistoryList n) = True"
| "isDriverCall DriverClose = True"
| "isDriverCall (Upsert u) = False"
| "isDriverCall (Archive a) = False"
| "isDriverCall (LogError m t) = False"
| "isDriverCall (LogDebug m t) = False"

section \<open>The specification's rules for the backup detectors\<close>

text \<open>
  The setting row a lookup stands for: none when the lookup reports not-found.
\<close>

definition settingRow :: "BackupSetting option \<times> error option \<Rightarrow> BackupSetting option" where
  "settingRow r = (case r of (bs, None) \<Rightarrow> bs | (bs, Some e) \<Rightarrow> None)"

text \<open>
  The effective schedule in the specification's words: Weekly if enabled, hour set and
  day of week set; Daily if enabled, hour set and day of week unset; Unset otherwise,
  also when there is no row.
\<close>

definition spec_effectiveSchedule :: "BackupSetting option \<Rightarrow> BackupPlanPolicySchedule" where
  "spec_effectiveSchedule row =
     (case row of
        None \<Rightarrow> BackupPlanPolicyScheduleUnset
      | Some bs \<Rightarrow>
          if Enabled bs \<and> Hour bs \<noteq> - 1 \<and> DayOfWeek bs \<noteq> - 1 then BackupPlanPolicyScheduleWeekly
          else if Enabled bs \<and> Hour bs \<noteq> - 1 \<and> DayOfWeek bs = - 1 then BackupPlanPolicyScheduleDaily
          else BackupPlanPolicyScheduleUnset)"

definition spec_violation :: "BackupPlanPolicySchedule \<Rightarrow> BackupPlanPolicySchedule \<Rightarrow> bool" where
  "spec_violation required effective \<longleftrightarrow>
     required \<noteq> BackupPlanPolicyScheduleUnset \<and>
     ((required = BackupPlanPolicyScheduleDaily \<and> effective \<noteq> BackupPlanPolicyScheduleDaily) \<or>
      (required = BackupPlanPolicyScheduleWeekly \<and> effective = BackupPlanPolicyScheduleUnset))"

text \<open>The maximal age of a backup, in seconds: a day for a daily setting, else a week.\<close>

definition spec_maxAge :: "BackupSetting \<Rightarrow> int" where
  "spec_maxAge bs = (if DayOfWeek bs = - 1 then 24 * 3600 else 7 * 24 * 3600)"

text \<open>
  The lookup of the backup setting ended in one of the two ways after which the
  detectors run: a row and no error, or a not-found error.
\<close>

definition settingLookupOk :: "BackupSetting option \<times> error option \<Rightarrow> bool" where
  "settingLookupOk r =
     (case r of (bs, None) \<Rightarrow> bs \<noteq> None | (bs, Some e) \<Rightarrow> ErrorCode e = NotFound)"

text \<open>
  The cases in which the backup-missing block builds no payload, read on the pointer the
  lookup returned: no setting, a disabled one, one changed within its maximal age, or a
  latest backup that is recent enough.
\<close>

definition noMissingBackup :: "Services \<Rightarrow> Database \<Rightarrow> BackupSetting option \<Rightarrow> bool" where
  "noMissingBackup s database row =
     (case row of
        None \<Rightarrow> True
      | Some bs \<Rightarrow>
          \<not> Enabled bs
          \<or> \<not> BackupSetting.UpdatedTs bs < Now s 0 - spec_maxAge bs
          \<or> (case fst (FindBackupList s (Database.ID database)) of
                [] \<Rightarrow> False
              | b # rest \<Rightarrow> Backup.UpdatedTs b \<ge> Now s 1 - spec_maxAge bs))"

section \<open>Concrete collaborators\<close>

text \<open>
  A server where every call succeeds and every list is empty, at Unix time 1000000;
  the examples below change one answer at a time.
\<close>

definition quietDriver :: Driver where
  "quietDriver = \<lparr>Dump = (\<lambda>n. Inr ''CREATE TABLE t (id INT);''),
                   FindMigrationHistoryList = (\<lambda>n l. Inr [])\<rparr>"

definition quietServices :: Services where
  "quietServices =
     \<lparr>FindEnvironmentList = Inr [],
      GetBackupPlanPolicy = (\<lambda>k. (Some \<lparr>Schedule = BackupPlanPolicyScheduleUnset\<rparr>, None)),
      FindInstanceList = Inr [],
      ComposeInstanceAdminDataSource = (\<lambda>i. Inr i),
      FindDatabaseList = (\<lambda>k. Inr []),
      GetDatabaseDriver = (\<lambda>i. Inr quietDriver),
      FindBackupSetting = (\<lambda>k. (None, Some (Err NotFound ''backup setting not found''))),
      FindBackupList = (\<lambda>k. ([], None)),
      UpsertActiveAnomaly = (\<lambda>u. None),
      ArchiveAnomaly = (\<lambda>a. None),
      json_Marshal = (\<lambda>p. Inr ''{}''),
      Now = (\<lambda>k. 1000000),
      SYSTEM_BOT_ID = 1\<rparr>"

definition env1 :: Environment where
  "env1 = \<lparr>Environment.ID = 1, Name = ''prod'', RowStatus = Normal\<rparr>"

definition instance1 :: Instance where
  "instance1 = \<lparr>Instance.ID = 7, Name = ''mysql-1'', EnvironmentId = 1, Environment = Some env1\<rparr>"

definition instance2 :: Instance where
  "instance2 = \<lparr>Instance.ID = 8, Name = ''mysql-2'', EnvironmentId = 1, Environment = Some env1\<rparr>"

definition database1 :: Database where
  "database1 = \<lparr>Database.ID = 42, Name = ''shop''\<rparr>"

definition dailyPolicyMap :: "int \<Rightarrow> BackupPlanPolicy option" where
  "dailyPolicyMap = (\<lambda>k. if k = 1 then Some \<lparr>Schedule = BackupPlanPolicyScheduleDaily\<rparr> else None)"

text \<open>The latest history record holds exactly the schema the driver dumps.\<close>

definition matchingDriver :: Driver where
  "matchingDriver =
     quietDriver\<lparr>FindMigrationHistoryList :=
       (\<lambda>n l. Inr [\<lparr>Version = ''0001'', Schema = ''CREATE TABLE t (id INT);''\<rparr>])\<rparr>"

definition matchingServices :: Services where
  "matchingServices = quietServices\<lparr>GetDatabaseDriver := (\<lambda>i. Inr matchingDriver)\<rparr>"

text \<open>No driver can be opened.\<close>

definition unreachableServices :: Services where
  "unreachableServices =
     quietServices\<lparr>GetDatabaseDriver := (\<lambda>i. Inl (Err (OtherCode 1) ''dial tcp: connection refused''))\<rparr>"

text \<open>A daily setting (enabled, 02:00) last changed at time 0, long before the clock's 1000000.\<close>

definition oldDailySetting :: BackupSetting where
  "oldDailySetting = \<lparr>Enabled = True, Hour = 2, DayOfWeek = - 1, UpdatedTs = 0\<rparr>"

text \<open>The same setting changed one hour before the clock's reading.\<close>

definition freshDailySetting :: BackupSetting where
  "freshDailySetting = \<lparr>Enabled = True, Hour = 2, DayOfWeek = - 1, UpdatedTs = 1000000 - 3600\<rparr>"

text \<open>Enabled, but with no hour chosen.\<close>

definition hourlessSetting :: BackupSetting where
  "hourlessSetting = \<lparr>Enabled = True, Hour = - 1, DayOfWeek = - 1, UpdatedTs = 0\<rparr>"

definition disabledSetting :: BackupSetting where
  "disabledSetting = \<lparr>Enabled = False, Hour = 2, DayOfWeek = - 1, UpdatedTs = 0\<rparr>"

text \<open>The backup list cannot be read.\<close>

definition backupLookupFailsServices :: Services where
  "backupLookupFailsServices =
     quietServices\<lparr>FindBackupSetting := (\<lambda>k. (Some oldDailySetting, None)),
                   FindBackupList := (\<lambda>k. ([], Some (Err (OtherCode 1) ''database is locked'')))\<rparr>"

definition graceServices :: Services where
  "graceServices = quietServices\<lparr>FindBackupSetting := (\<lambda>k. (Some freshDailySetting, None))\<rparr>"

definition hourlessServices :: Services where
  "hourlessServices = quietServices\<lparr>FindBackupSetting := (\<lambda>k. (Some hourlessSetting, None))\<rparr>"

definition disabledServices :: Services where
  "disabledServices =
     quietServices\<lparr>FindBackupSetting := (\<lambda>k. (Some disabledSetting, None)),
                   ArchiveAnomaly := (\<lambda>a. Some (Err NotFound ''anomaly not found''))\<rparr>"

text \<open>Two instances; the admin data source of the first cannot be resolved.\<close>

definition firstInstanceFailsServices :: Services where
  "firstInstanceFailsServices =
     quietServices\<lparr>FindEnvironmentList := Inr [env1],
                   FindInstanceList := Inr [instance1, instance2],
                   FindDatabaseList := (\<lambda>k. Inr [database1]),
                   ComposeInstanceAdminDataSource :=
                     (\<lambda>i. if Instance.ID i = 7 then Inl (Err (OtherCode 1) ''no admin data source'') else Inr i)\<rparr>"

text \<open>The same two instances with both data sources resolved.\<close>

definition twoInstancesServices :: Services where
  "twoInstancesServices =
     quietServices\<lparr>FindEnvironmentList := Inr [env1],
                   FindInstanceList := Inr [instance1, instance2],
                   FindDatabaseList := (\<lambda>k. Inr [database1])\<rparr>"

section \<open>Properties of the UTF-8 functions\<close>

lemma DecodeRune_le: "DecodeRune s = (r, n) \<Longrightarrow> n \<le> length s"
  by (cases s) (auto simp: Let_def split: if_splits list.splits)



lemma off_mod: "k mod m = 0 \<Longrightarrow> a < m \<Longrightarrow> (k + a) mod m = (a::nat)"
  by (subst mod_add_left_eq[symmetric]) simp

lemma enc2:
  fixes a b r :: nat
  assumes "2 \<le> a" "a < 32" "b < 64"
    and r_def: "r = ((0xC0 + a) mod 32) * 64 + (0x80 + b) mod 64"
  shows "\<not> r \<le> 0x7F"
    and "r \<le> 0x7FF"
    and "0xC0 + r div 64 = 0xC0 + a"
    and "0x80 + r mod 64 = 0x80 + b"
proof -
  have r: "r = a * 64 + b"
    using assms by (simp add: r_def off_mod)
  show "\<not> r \<le> 0x7F" "r \<le> 0x7FF" "0xC0 + r div 64 = 0xC0 + a" "0x80 + r mod 64 = 0x80 + b"
    using assms(1-3) unfolding r by simp_all
qed

lemma enc3:
  fixes a b c r :: nat
  assumes "a < 16" "b < 64" "c < 64" "a = 0 \<longrightarrow> 0x20 \<le> b" "a = 0xD \<longrightarrow> b < 0x20"
    and r_def: "r = ((0xE0 + a) mod 16) * 4096 + ((0x80 + b) mod 64) * 64 + (0x80 + c) mod 64"
  shows "\<not> r \<le> 0x7FF"
    and "\<not> (r > 0x10FFFF \<or> (0xD800 \<le> r \<and> r \<le> 0xDFFF))"
    and "r \<le> 0xFFFF"
    and "0xE0 + r div 4096 = 0xE0 + a"
    and "0x80 + (r div 64) mod 64 = 0x80 + b"
    and "0x80 + r mod 64 = 0x80 + c"
proof -
  have r: "r = a * 4096 + (b * 64 + c)"
    using assms by (simp add: r_def off_mod)
  define q where "q = a * 64 + b"
  have r': "r = q * 64 + c"
    unfolding r q_def by simp
  have lt: "b * 64 + c < 4096" using assms by simp
  show "\<not> r \<le> 0x7FF" using assms(1-5) unfolding r by (cases "a = 0") simp_all
  show "r \<le> 0xFFFF" using assms(1-3) unfolding r by simp
  show "\<not> (r > 0x10FFFF \<or> (0xD800 \<le> r \<and> r \<le> 0xDFFF))"
  proof (cases "a = 0xD")
    case True
    then show ?thesis using assms(1-5) unfolding r by simp
  next
    case False
    then have "a < 0xD \<or> 0xE \<le> a" by auto
    then show ?thesis using assms(1-3) unfolding r by auto
  qed
  show "0xE0 + r div 4096 = 0xE0 + a" using lt unfolding r by simp
  show "0x80 + r mod 64 = 0x80 + c" using assms(3) unfolding r' by simp
  have "r div 64 = q" using assms(3) unfolding r' by simp
  then show "0x80 + (r div 64) mod 64 = 0x80 + b" using assms(2) unfolding q_def by simp
qed

lemma enc4:
  fixes a b c d r :: nat
  assumes "a \<le> 4" "b < 64" "c < 64" "d < 64" "a = 0 \<longrightarrow> 0x10 \<le> b" "a = 4 \<longrightarrow> b < 0x10"
    and r_def: "r = ((0xF0 + a) mod 8) * 262144 + ((0x80 + b) mod 64) * 4096
                 + ((0x80 + c) mod 64) * 64 + (0x80 + d) mod 64"
  shows "\<not> r \<le> 0xFFFF"
    and "\<not> (r > 0x10FFFF \<or> (0xD800 \<le> r \<and> r \<le> 0xDFFF))"
    and "0xF0 + r div 262144 = 0xF0 + a"
    and "0x80 + (r div 4096) mod 64 = 0x80 + b"
    and "0x80 + (r div 64) mod 64 = 0x80 + c"
    and "0x80 + r mod 64 = 0x80 + d"
proof -
  have r: "r = a * 262144 + (b * 4096 + (c * 64 + d))"
    using assms by (simp add: r_def off_mod)
  define q2 where "q2 = a * 64 + b"
  define q3 where "q3 = q2 * 64 + c"
  have r2: "r = q2 * 4096 + (c * 64 + d)"
    unfolding r q2_def by simp
  have r3: "r = q3 * 64 + d"
    unfolding r q3_def q2_def by simp
  have lt1: "b * 4096 + (c * 64 + d) < 262144" using assms by simp
  have lt2: "c * 64 + d < 4096" using assms by simp
  show "\<not> r \<le> 0xFFFF" using assms(1-6) unfolding r by (cases "a = 0") simp_all
  show "\<not> (r > 0x10FFFF \<or> (0xD800 \<le> r \<and> r \<le> 0xDFFF))"
  proof (cases "a = 4")
    case True
    then show ?thesis using assms(1-6) unfolding r by simp
  next
    case False
    then have a3: "a \<le> 3" using assms(1) by simp
    have "0xFFFF < r" using \<open>\<not> r \<le> 0xFFFF\<close> by simp
    moreover have "r \<le> 0x10FFFF" using a3 assms(2-4) unfolding r by simp
    ultimately show ?thesis by simp
  qed
  show "0xF0 + r div 262144 = 0xF0 + a" using lt1 unfolding r by simp
  show "0x80 + r mod 64 = 0x80 + d" using assms(4) unfolding r3 by simp
  have "r div 4096 = q2" using lt2 unfolding r2 by simp
  then show "0x80 + (r div 4096) mod 64 = 0x80 + b" using assms(2) unfolding q2_def by simp
  have "r div 64 = q3" using assms(4) unfolding r3 by simp
  then show "0x80 + (r div 64) mod 64 = 0x80 + c" using assms(3) unfolding q3_def by simp
qed


lemma char_of_byte: "char_of (byte c) = c"
  by (simp add: byte_def)

lemma Encode_Decode:
  assumes dec: "DecodeRune (c # s) = (r, n)" and ok: "\<not> (r = RuneError \<and> n = 1)"
  shows "EncodeRune r = take n (c # s)"
proof -
  define p0 where "p0 = byte c"
  have c: "c = char_of p0" by (simp add: p0_def char_of_byte)
  consider "p0 < 0x80" | "0x80 \<le> p0 \<and> (p0 < 0xC2 \<or> 0xF4 < p0)" | "0xC2 \<le> p0 \<and> p0 < 0xE0"
    | "0xE0 \<le> p0 \<and> p0 < 0xF0" | "0xF0 \<le> p0 \<and> p0 \<le> 0xF4"
    by linarith
  then show ?thesis
  proof cases
    case 1
    then show ?thesis
      using dec by (auto simp: EncodeRune_def p0_def char_of_byte)
  next
    case 2
    then show ?thesis
      using dec ok by (auto simp: p0_def)
  next
    case 3
    with dec ok obtain c1 s1 where s: "s = c1 # s1" and b1: "0x80 \<le> byte c1" "byte c1 \<le> 0xBF"
      and r: "r = (p0 mod 32) * 64 + byte c1 mod 64" and n: "n = 2"
      by (auto simp: Let_def p0_def split: list.splits if_splits)
    define a where "a = p0 - 0xC0"
    define b where "b = byte c1 - 0x80"
    have pa: "p0 = 0xC0 + a" and bb: "byte c1 = 0x80 + b"
      using 3 b1 by (auto simp: a_def b_def)
    have bounds: "2 \<le> a" "a < 32" "b < 64"
      using 3 b1 by (auto simp: a_def b_def)
    have c1: "c1 = char_of (0x80 + b)" using char_of_byte [of c1] by (simp only: bb)
    have r': "r = ((0xC0 + a) mod 32) * 64 + (0x80 + b) mod 64"
      by (simp only: r pa bb)
    show ?thesis
      using enc2 [OF bounds r']
      by (simp add: EncodeRune_def n s c c1 pa)
  next
    case 4
    with dec ok obtain c1 c2 s2 where s: "s = c1 # c2 # s2"
      and b1: "(if p0 = 0xE0 then 0xA0 else 0x80) \<le> byte c1" "byte c1 \<le> (if p0 = 0xED then 0x9F else 0xBF)"
      and b2: "0x80 \<le> byte c2" "byte c2 \<le> 0xBF"
      and r: "r = (p0 mod 16) * 4096 + (byte c1 mod 64) * 64 + byte c2 mod 64" and n: "n = 3"
      by (auto simp: Let_def p0_def split: list.splits if_splits)
    define a where "a = p0 - 0xE0"
    define b where "b = byte c1 - 0x80"
    define d where "d = byte c2 - 0x80"
    have b1': "0x80 \<le> byte c1" "byte c1 \<le> 0xBF"
      using b1 by (auto split: if_splits)
    have pa: "p0 = 0xE0 + a" and bb: "byte c1 = 0x80 + b" and dd: "byte c2 = 0x80 + d"
      using 4 b1' b2 by (auto simp: a_def b_def d_def)
    have bounds: "a < 16" "b < 64" "d < 64" "a = 0 \<longrightarrow> 0x20 \<le> b" "a = 0xD \<longrightarrow> b < 0x20"
      using 4 b1 b1' b2 by (auto simp: a_def b_def d_def split: if_splits)
    have c1: "c1 = char_of (0x80 + b)" using char_of_byte [of c1] by (simp only: bb)
    have c2: "c2 = char_of (0x80 + d)" using char_of_byte [of c2] by (simp only: dd)
    have r': "r = ((0xE0 + a) mod 16) * 4096 + ((0x80 + b) mod 64) * 64 + (0x80 + d) mod 64"
      by (simp only: r pa bb dd)
    show ?thesis
      using enc3 [OF bounds r']
      by (auto simp: EncodeRune_def n s c c1 c2 pa)
  next
    case 5
    with dec ok obtain c1 c2 c3 s3 where s: "s = c1 # c2 # c3 # s3"
      and b1: "(if p0 = 0xF0 then 0x90 else 0x80) \<le> byte c1" "byte c1 \<le> (if p0 = 0xF4 then 0x8F else 0xBF)"
      and b2: "0x80 \<le> byte c2" "byte c2 \<le> 0xBF"
      and b3: "0x80 \<le> byte c3" "byte c3 \<le> 0xBF"
      and r: "r = (p0 mod 8) * 262144 + (byte c1 mod 64) * 4096 + (byte c2 mod 64) * 64 + byte c3 mod 64"
      and n: "n = 4"
      by (auto simp: Let_def p0_def split: list.splits if_splits)
    define a where "a = p0 - 0xF0"
    define b where "b = byte c1 - 0x80"
    define d where "d = byte c2 - 0x80"
    define e where "e = byte c3 - 0x80"
    have b1': "0x80 \<le> byte c1" "byte c1 \<le> 0xBF"
      using b1 by (auto split: if_splits)
    have pa: "p0 = 0xF0 + a" and bb: "byte c1 = 0x80 + b" and dd: "byte c2 = 0x80 + d"
      and ee: "byte c3 = 0x80 + e"
      using 5 b1' b2 b3 by (auto simp: a_def b_def d_def e_def)
    have bounds: "a \<le> 4" "b < 64" "d < 64" "e < 64" "a = 0 \<longrightarrow> 0x10 \<le> b" "a = 4 \<longrightarrow> b < 0x10"
      using 5 b1 b1' b2 b3 by (auto simp: a_def b_def d_def e_def split: if_splits)
    have c1: "c1 = char_of (0x80 + b)" using char_of_byte [of c1] by (simp only: bb)
    have c2: "c2 = char_of (0x80 + d)" using char_of_byte [of c2] by (simp only: dd)
    have c3: "c3 = char_of (0x80 + e)" using char_of_byte [of c3] by (simp only: ee)
    have r': "r = ((0xF0 + a) mod 8) * 262144 + ((0x80 + b) mod 64) * 4096
                 + ((0x80 + d) mod 64) * 64 + (0x80 + e) mod 64"
      by (simp only: r pa bb dd ee)
    show ?thesis
      using enc4 [OF bounds r']
      by (auto simp: EncodeRune_def n s c c1 c2 c3 pa)
  qed
qed

section \<open>Properties of the JSON writer and reader\<close>

lemma parse_fuel_mono:
  "(parseValue k d s = Ok v r \<longrightarrow> parseValue (k + j) d s = Ok v r)"
  "(parseMembers k d acc s = Ok v r \<longrightarrow> parseMembers (k + j) d acc s = Ok v r)"
  "(parseElements k d acc' s = Ok v r \<longrightarrow> parseElements (k + j) d acc' s = Ok v r)"
proof (induction k d s and k d acc s and k d acc' s arbitrary: v r and v r and v r
    rule: parseValue_parseMembers_parseElements.induct)
  case (1 depth s)
  then show ?case by simp
next
  case (2 k depth)
  then show ?case by simp
next
  case (3 k depth c s)
  then show ?case
    by (auto split: list.splits option.splits)
next
  case (4 depth acc s)
  then show ?case by simp
next
  case (5 k depth acc s)
  then show ?case
    by (auto split: list.splits option.splits scan.splits if_splits)
next
  case (6 depth acc s)
  then show ?case by simp
next
  case (7 k depth acc s)
  then show ?case
    by (auto split: list.splits option.splits scan.splits if_splits)
qed


lemma DecodeRune_prefix:
  assumes "DecodeRune (c # s) = (r, n)" "\<not> (r = RuneError \<and> n = 1)"
  shows "DecodeRune (take n (c # s) @ t) = (r, n)"
  using assms
  by (auto simp: Let_def split: if_splits list.splits)

lemma DecodeRune_ascii: "byte c < 0x80 \<Longrightarrow> DecodeRune (c # s) = (byte c, 1)"
  by simp

lemma DecodeRune_high: "DecodeRune (c # s) = (r, n) \<Longrightarrow> \<not> byte c < 0x80 \<Longrightarrow> n \<le> length (c # s)"
  by (rule DecodeRune_le)

lemma prepend_Some: "prepend xs (Some (str, rest)) = Some (xs @ str, rest)"
  by (simp add: prepend_def)

lemma byte_eq_iff: "byte c = byte d \<longleftrightarrow> c = d"
  by (simp add: byte_def)

lemma byte_quote: "byte (CHR 0x22) = 0x22" and byte_backslash: "byte (CHR 0x5C) = 0x5C"
  by (simp_all add: byte_def)

lemma hexVal_hex: "x < 16 \<Longrightarrow> hexVal (hex x) = Some x"
  by (auto simp: hexVal_def hex_def byte_def Let_def)

lemma parse_plain:
  assumes "0x20 \<le> byte c" "byte c < 0x80" "byte c \<noteq> 0x22" "byte c \<noteq> 0x5C"
  shows "parseStringBody (c # t) = prepend [c] (parseStringBody t)"
proof -
  have "c \<noteq> CHR 0x22" "c \<noteq> CHR 0x5C"
    using assms byte_quote byte_backslash by auto
  then show ?thesis using assms by simp
qed

lemma parse_escaped:
  assumes "unescape e = Some ch" "e \<noteq> CHR ''u''"
  shows "parseStringBody (CHR 0x5C # e # t) = prepend [ch] (parseStringBody t)"
  using assms by simp

lemma getu4_00:
  assumes "b < 0x80"
  shows "getu4 (CHR 0x5C # CHR ''u'' # CHR ''0'' # CHR ''0'' # hex (b div 16) # hex (b mod 16) # t) = Some b"
proof -
  have "b div 16 < 16" "b mod 16 < 16" using assms by auto
  then have "hexVal (hex (b div 16)) = Some (b div 16)" "hexVal (hex (b mod 16)) = Some (b mod 16)"
    by (simp_all add: hexVal_hex)
  moreover have "hexVal (CHR ''0'') = Some 0" by (simp add: hexVal_def byte_def)
  ultimately show ?thesis by simp
qed

lemma parse_u00:
  assumes "b < 0x80"
  shows "parseStringBody (CHR 0x5C # CHR ''u'' # CHR ''0'' # CHR ''0'' # hex (b div 16) # hex (b mod 16) # t)
         = prepend [char_of b] (parseStringBody t)"
  using assms getu4_00 [OF assms, of t]
  by (simp add: EncodeRune_def del: getu4.simps)


lemma parse_multi:
  assumes dec: "DecodeRune (c # s) = (r, n)" and ok: "\<not> (r = RuneError \<and> n = 1)"
    and high: "\<not> byte c < 0x80"
  shows "parseStringBody (take n (c # s) @ t) = prepend (take n (c # s)) (parseStringBody t)"
proof -
  have n1: "1 \<le> n" using dec by (rule DecodeRune_size)
  have nl: "n \<le> length (c # s)" using dec by (rule DecodeRune_le)
  obtain m where m: "n = Suc m" using n1 by (cases n) auto
  have tk: "take n (c # s) @ t = c # (take m s @ t)" by (simp add: m)
  have c: "c \<noteq> CHR 0x22" "c \<noteq> CHR 0x5C" "\<not> byte c < 0x20"
    using high byte_quote byte_backslash by auto
  have d: "DecodeRune (c # (take m s @ t)) = (r, n)"
    using DecodeRune_prefix [OF dec ok, of t] by (simp only: tk)
  have len: "length (take m s) = m" using nl m by simp
  have dr: "drop n (c # (take m s @ t)) = t"
    using len by (simp add: m)
  show ?thesis
    unfolding tk using c high d dr Encode_Decode [OF dec ok]
    by (simp add: m del: DecodeRune.simps)
qed

lemma parse_2028:
  assumes "r = 0x2028 \<or> r = 0x2029"
  shows "parseStringBody (CHR 0x5C # CHR ''u'' # CHR ''2'' # CHR ''0'' # CHR ''2'' # hex (r mod 16) # t)
         = prepend (EncodeRune r) (parseStringBody t)"
  using assms
  by (auto simp: hexVal_def hex_def byte_def Let_def)

lemma parseStringBody_encode:
  "ValidString s \<Longrightarrow> parseStringBody (encodeStringBody s @ CHR 0x22 # rest) = Some (s, rest)"
proof (induction "length s" arbitrary: s rule: less_induct)
  case less
  show ?case
  proof (cases s)
    case Nil
    then show ?thesis by simp
  next
    case (Cons c s')
    obtain r n where dec: "DecodeRune (c # s') = (r, n)"
      by (cases "DecodeRune (c # s')")
    from less.prems Cons dec have ok: "\<not> (r = RuneError \<and> n = 1)"
      and valid: "ValidString (drop n (c # s'))"
      by (simp_all del: DecodeRune.simps)
    have n1: "1 \<le> n" using dec by (rule DecodeRune_size)
    have IH: "parseStringBody (encodeStringBody (drop n (c # s')) @ CHR 0x22 # rest)
                = Some (drop n (c # s'), rest)"
      using less.hyps [of "drop n (c # s')"] valid n1 Cons by simp
    show ?thesis
    proof (cases "byte c < 0x80")
      case True
      then have n: "n = 1" and r: "r = byte c" using dec by simp_all
      have IH': "parseStringBody (encodeStringBody s' @ CHR 0x22 # rest) = Some (s', rest)"
        using IH n by simp
      consider (safe) "htmlSafe (byte c)"
        | (bq) "\<not> htmlSafe (byte c)" "c = CHR 0x5C \<or> c = CHR 0x22"
        | (nl) "c = CHR 0x0A" | (cr) "c = CHR 0x0D" | (tab) "c = CHR 0x09"
        | (other) "\<not> htmlSafe (byte c)" "c \<noteq> CHR 0x5C" "c \<noteq> CHR 0x22" "c \<noteq> CHR 0x0A"
            "c \<noteq> CHR 0x0D" "c \<noteq> CHR 0x09"
        by blast
      then show ?thesis
      proof cases
        case safe
        then have "parseStringBody (c # encodeStringBody s' @ CHR 0x22 # rest)
            = prepend [c] (parseStringBody (encodeStringBody s' @ CHR 0x22 # rest))"
          using True by (intro parse_plain) (auto simp: htmlSafe_def)
        then show ?thesis
          using safe True by (simp add: Cons IH' prepend_Some)
      next
        case bq
        then have "parseStringBody (CHR 0x5C # c # encodeStringBody s' @ CHR 0x22 # rest)
            = prepend [c] (parseStringBody (encodeStringBody s' @ CHR 0x22 # rest))"
          by (intro parse_escaped) (auto simp: unescape_def)
        then show ?thesis
          using bq True by (simp add: Cons IH' prepend_Some)
      next
        case nl
        have "parseStringBody (CHR 0x5C # CHR ''n'' # encodeStringBody s' @ CHR 0x22 # rest)
            = prepend [CHR 0x0A] (parseStringBody (encodeStringBody s' @ CHR 0x22 # rest))"
          by (intro parse_escaped) (auto simp: unescape_def)
        then show ?thesis
          using nl by (simp add: Cons IH' prepend_Some byte_def htmlSafe_def)
      next
        case cr
        have "parseStringBody (CHR 0x5C # CHR ''r'' # encodeStringBody s' @ CHR 0x22 # rest)
            = prepend [CHR 0x0D] (parseStringBody (encodeStringBody s' @ CHR 0x22 # rest))"
          by (intro parse_escaped) (auto simp: unescape_def)
        then show ?thesis
          using cr by (simp add: Cons IH' prepend_Some byte_def htmlSafe_def)
      next
        case tab
        have "parseStringBody (CHR 0x5C # CHR ''t'' # encodeStringBody s' @ CHR 0x22 # rest)
            = prepend [CHR 0x09] (parseStringBody (encodeStringBody s' @ CHR 0x22 # rest))"
          by (intro parse_escaped) (auto simp: unescape_def)
        then show ?thesis
          using tab by (simp add: Cons IH' prepend_Some byte_def htmlSafe_def)
      next
        case other
        have "parseStringBody (CHR 0x5C # CHR ''u'' # CHR ''0'' # CHR ''0'' # hex (byte c div 16)
                # hex (byte c mod 16) # encodeStringBody s' @ CHR 0x22 # rest)
            = prepend [char_of (byte c)] (parseStringBody (encodeStringBody s' @ CHR 0x22 # rest))"
          using True by (rule parse_u00)
        then show ?thesis
          using other True by (simp add: Cons IH' prepend_Some char_of_byte Let_def del: parseStringBody.simps)
      qed
    next
      case False
      show ?thesis
      proof (cases "r = 0x2028 \<or> r = 0x2029")
        case True
        have "parseStringBody (CHR 0x5C # CHR ''u'' # CHR ''2'' # CHR ''0'' # CHR ''2'' # hex (r mod 16)
                # encodeStringBody (drop n (c # s')) @ CHR 0x22 # rest)
            = prepend (EncodeRune r) (parseStringBody (encodeStringBody (drop n (c # s')) @ CHR 0x22 # rest))"
          using True by (rule parse_2028)
        moreover have "EncodeRune r @ drop n (c # s') = c # s'"
          using Encode_Decode [OF dec ok] by simp
        moreover have "r \<noteq> RuneError" using True by (auto simp: RuneError_def)
        ultimately show ?thesis
          using False True dec
          by (simp add: Cons IH prepend_Some del: parseStringBody.simps DecodeRune.simps)
      next
        case plain: False
        have "parseStringBody (take n (c # s') @ encodeStringBody (drop n (c # s')) @ CHR 0x22 # rest)
            = prepend (take n (c # s')) (parseStringBody (encodeStringBody (drop n (c # s')) @ CHR 0x22 # rest))"
          using dec ok False by (rule parse_multi)
        then show ?thesis
          using False plain dec ok
          by (auto simp: Cons IH prepend_Some simp del: parseStringBody.simps DecodeRune.simps)
      qed
    qed
  qed
qed


lemma digit_char: "(d::nat) < 10 \<Longrightarrow> byte (char_of (48 + d)) = 48 + d"
  by (simp add: byte_def)

lemma isDigit_digit: "(d::nat) < 10 \<Longrightarrow> isDigit (char_of (48 + d))"
  by (simp add: isDigit_def digit_char)

lemma natDigits_digits: "list_all isDigit (natDigits n)"
proof (induction n rule: natDigits.induct)
  case (1 n)
  show ?case
  proof (cases "n < 10")
    case True
    then show ?thesis by (subst natDigits.simps) (simp add: isDigit_digit)
  next
    case False
    have "n mod 10 < 10" by simp
    then have "isDigit (char_of (48 + n mod 10))" by (rule isDigit_digit)
    then show ?thesis
      using False 1 by (subst natDigits.simps) simp
  qed
qed

lemma natDigits_nonempty: "natDigits n \<noteq> []"
  by (subst natDigits.simps) simp

lemma digitsValue_append: "digitsValue (xs @ [c]) = digitsValue xs * 10 + (int (byte c) - 48)"
  by (simp add: digitsValue_def)

lemma digitsValue_natDigits: "digitsValue (natDigits n) = int n"
proof (induction n rule: natDigits.induct)
  case (1 n)
  show ?case
  proof (cases "n < 10")
    case True
    then show ?thesis
      by (subst natDigits.simps) (simp add: digitsValue_def digit_char)
  next
    case False
    have m: "n mod 10 < 10" by simp
    have "digitsValue (natDigits n) = digitsValue (natDigits (n div 10)) * 10 + (int (byte (char_of (48 + n mod 10))) - 48)"
      using False by (subst natDigits.simps) (simp add: digitsValue_append)
    also have "\<dots> = int (n div 10) * 10 + int (n mod 10)"
      using 1 False by (simp add: digit_char [OF m])
    also have "\<dots> = int n"
      by (simp add: zdiv_int zmod_int)
    finally show ?thesis .
  qed
qed

lemma natDigits_hd: "\<exists>c cs. natDigits n = c # cs \<and> isDigit c \<and> (0 < n \<longrightarrow> c \<noteq> CHR ''0'')"
proof (induction n rule: natDigits.induct)
  case (1 n)
  show ?case
  proof (cases "n < 10")
    case True
    have "0 < n \<longrightarrow> char_of (48 + n) \<noteq> CHR ''0''"
      using True by (auto simp: char_of_eq_iff take_bit_eq_mod)
    then show ?thesis
      using True by (subst natDigits.simps) (simp add: isDigit_digit)
  next
    case False
    then have "0 < n div 10" by simp
    with 1 False obtain c cs where "natDigits (n div 10) = c # cs" "isDigit c" "c \<noteq> CHR ''0''"
      by auto
    then show ?thesis
      using False by (subst natDigits.simps) simp
  qed
qed


lemma comma_not_digit: "\<not> isDigit (CHR '','')"
  by (simp add: isDigit_def byte_def)

lemma takeWhile_digits:
  "list_all isDigit ds \<Longrightarrow> takeWhile isDigit (ds @ CHR '','' # rest) = ds"
  by (simp add: takeWhile_append2 list_all_iff comma_not_digit)

lemma dropWhile_digits:
  "list_all isDigit ds \<Longrightarrow> dropWhile isDigit (ds @ CHR '','' # rest) = CHR '','' # rest"
  by (simp add: dropWhile_append2 list_all_iff comma_not_digit)

lemma scanInt_natDigits:
  "scanInt (natDigits n @ CHR '','' # rest) = Some (natDigits n, CHR '','' # rest)"
proof -
  obtain c cs where nd: "natDigits n = c # cs" and c: "isDigit c" and nz: "0 < n \<longrightarrow> c \<noteq> CHR ''0''"
    using natDigits_hd by blast
  have all: "list_all isDigit cs"
    using natDigits_digits [of n] nd by simp
  show ?thesis
  proof (cases "n = 0")
    case True
    then have "natDigits n = ''0''" by (subst natDigits.simps) (simp add: char_of_eq_iff)
    then show ?thesis by (simp add: scanInt_def)
  next
    case False
    then show ?thesis
      using nz c all by (simp add: scanInt_def nd takeWhile_digits dropWhile_digits)
  qed
qed

lemma natDigits_no_sign: "natDigits n = c # cs \<Longrightarrow> c \<noteq> CHR ''-'' \<and> c \<noteq> CHR ''+''"
  using natDigits_digits [of n] by (auto simp: isDigit_def byte_def)

lemma parseNumber_FormatInt:
  "parseNumber (FormatInt i @ CHR '','' # rest) = Some (FormatInt i, CHR '','' # rest)"
proof -
  have frac: "scanFrac (CHR '','' # rest) = Some ([], CHR '','' # rest)"
    by (simp add: scanFrac_def)
  have exp: "scanExp (CHR '','' # rest) = Some ([], CHR '','' # rest)"
    by (simp add: scanExp_def)
  show ?thesis
  proof (cases "i < 0")
    case True
    then show ?thesis
      by (simp add: FormatInt_def parseNumber_def scanInt_natDigits frac exp)
  next
    case False
    obtain c cs where nd: "natDigits (nat i) = c # cs"
      using natDigits_nonempty [of "nat i"] by (cases "natDigits (nat i)") auto
    have "c \<noteq> CHR ''-''" using natDigits_no_sign [OF nd] by simp
    then have "parseNumber ((c # cs) @ CHR '','' # rest) = Some (c # cs, CHR '','' # rest)"
      using scanInt_natDigits [of "nat i" rest] frac exp
      by (simp add: parseNumber_def nd)
    then show ?thesis
      using False by (simp add: FormatInt_def nd)
  qed
qed

lemma ParseInt_FormatInt:
  assumes "- (2 ^ 63) \<le> i" "i < 2 ^ 63"
  shows "ParseInt (FormatInt i) = Some i"
proof (cases "i < 0")
  case True
  have "natDigits (nat (- i)) \<noteq> []" by (rule natDigits_nonempty)
  then show ?thesis
    using True assms natDigits_digits [of "nat (- i)"]
    by (simp add: FormatInt_def ParseInt_def digitsValue_natDigits)
next
  case False
  obtain c cs where nd: "natDigits (nat i) = c # cs"
    using natDigits_nonempty [of "nat i"] by (cases "natDigits (nat i)") auto
  have sign: "c \<noteq> CHR ''-''" "c \<noteq> CHR ''+''" using natDigits_no_sign [OF nd] by simp_all
  have "digitsValue (c # cs) = i" "list_all isDigit (c # cs)"
    using digitsValue_natDigits [of "nat i"] natDigits_digits [of "nat i"] False by (simp_all add: nd)
  then show ?thesis
    using False assms sign by (simp add: FormatInt_def ParseInt_def nd Let_def)
qed

lemma FormatInt_first:
  "\<exists>c cs. FormatInt i = c # cs \<and> (c = CHR ''-'' \<or> isDigit c) \<and> c \<noteq> CHR ''{'' \<and> c \<noteq> CHR ''['' \<and> c \<noteq> CHR 0x22"
proof -
  obtain c cs where nd: "natDigits (nat i) = c # cs" and c: "isDigit c"
    using natDigits_hd by blast
  have "c \<noteq> CHR ''{'' \<and> c \<noteq> CHR ''['' \<and> c \<noteq> CHR 0x22"
    using c by (auto simp: isDigit_def byte_def)
  then show ?thesis
    using c by (auto simp: FormatInt_def nd)
qed

lemma parseValue_FormatInt:
  "parseValue (Suc k) d (FormatInt i @ CHR '','' # rest) = Ok (JNumber (FormatInt i)) (CHR '','' # rest)"
proof -
  obtain c cs where f: "FormatInt i = c # cs" and c: "c = CHR ''-'' \<or> isDigit c"
    "c \<noteq> CHR ''{''" "c \<noteq> CHR ''[''" "c \<noteq> CHR 0x22"
    using FormatInt_first by blast
  have "parseNumber (c # cs @ CHR '','' # rest) = Some (c # cs, CHR '','' # rest)"
    using parseNumber_FormatInt [of i rest] by (simp add: f)
  then show ?thesis
    using c by (simp add: f)
qed

lemma parseValue_string:
  "ValidString v \<Longrightarrow> parseValue (Suc k) d (encodeString v @ rest) = Ok (JString v) rest"
  by (simp add: encodeString_def parseStringBody_encode)


lemma parse_key:
  "list_all plainChar key \<Longrightarrow> parseStringBody (key @ CHR 0x22 # rest) = Some (key, rest)"
proof (induction key)
  case Nil
  then show ?case by simp
next
  case (Cons c key)
  then have "parseStringBody (c # key @ CHR 0x22 # rest)
      = prepend [c] (parseStringBody (key @ CHR 0x22 # rest))"
    by (intro parse_plain) (auto simp: plainChar_def)
  then show ?case using Cons by (simp add: prepend_Some)
qed

lemma skipSpace_id: "\<not> isSpace c \<Longrightarrow> skipSpace (c # s) = c # s"
  by (simp add: skipSpace_def)

lemma parseMembers_last_string:
  assumes "list_all plainChar key" "ValidString v"
  shows "parseMembers (Suc (Suc k)) d acc (CHR 0x22 # key @ CHR 0x22 # CHR '':'' # encodeString v @ ''}'')
         = Ok (JObject (acc @ [(key, JString v)])) []"
proof -
  have k: "parseStringBody (key @ CHR 0x22 # CHR '':'' # encodeString v @ ''}'')
        = Some (key, CHR '':'' # encodeString v @ ''}'')"
    using assms(1) by (rule parse_key)
  have v: "parseValue (Suc k) d (encodeString v @ ''}'') = Ok (JString v) ''}''"
    using assms(2) by (rule parseValue_string)
  have sp: "skipSpace (encodeString v @ ''}'') = encodeString v @ ''}''"
    by (simp add: encodeString_def skipSpace_def isSpace_def)
  show ?thesis
    using k v sp by (simp add: skipSpace_def isSpace_def del: parseValue.simps)
qed

lemma parseMembers_int_then:
  assumes "list_all plainChar key"
    and "parseMembers (Suc k) d (acc @ [(key, JNumber (FormatInt i))]) (CHR 0x22 # tail) = res"
  shows "parseMembers (Suc (Suc k)) d acc
           (CHR 0x22 # key @ CHR 0x22 # CHR '':'' # FormatInt i @ CHR '','' # CHR 0x22 # tail) = res"
proof -
  have k: "parseStringBody (key @ CHR 0x22 # CHR '':'' # FormatInt i @ CHR '','' # CHR 0x22 # tail)
        = Some (key, CHR '':'' # FormatInt i @ CHR '','' # CHR 0x22 # tail)"
    using assms(1) by (rule parse_key)
  have v: "parseValue (Suc k) d (FormatInt i @ CHR '','' # CHR 0x22 # tail)
        = Ok (JNumber (FormatInt i)) (CHR '','' # CHR 0x22 # tail)"
    by (rule parseValue_FormatInt)
  obtain c cs where f: "FormatInt i = c # cs" and c: "c = CHR ''-'' \<or> isDigit c"
    using FormatInt_first by blast
  have "\<not> isSpace c" using c by (auto simp: isSpace_def isDigit_def byte_def)
  then have sp: "skipSpace (FormatInt i @ CHR '','' # CHR 0x22 # tail) = FormatInt i @ CHR '','' # CHR 0x22 # tail"
    by (simp add: f skipSpace_def)
  show ?thesis
    using k v sp assms(2)
    by (subst parseMembers.simps(2))
       (simp add: skipSpace_def isSpace_def del: parseValue.simps parseMembers.simps(2))
qed

lemma parseJSON_object:
  assumes "parseMembers (Suc (Suc (Suc 0))) 1 [] (CHR 0x22 # tail) = Ok v []"
  shows "parseJSON (CHR ''{'' # CHR 0x22 # tail) = Ok v []"
proof -
  define s where "s = CHR ''{'' # CHR 0x22 # tail"
  have "parseValue (Suc (Suc (Suc (Suc 0)))) 0 s = Ok v []"
    unfolding s_def using assms
    by (subst parseValue.simps(3))
       (simp add: skipSpace_def isSpace_def maxNestingDepth_def del: parseMembers.simps(2))
  then have "parseValue (Suc (Suc (Suc (Suc 0))) + (Suc (2 * length s) - 4)) 0 s = Ok v []"
    using parse_fuel_mono(1) by blast
  moreover have "Suc (Suc (Suc (Suc 0))) + (Suc (2 * length s) - 4) = Suc (2 * length s)"
    by (simp add: s_def)
  ultimately have "parseValue (Suc (2 * length s)) 0 s = Ok v []"
    by simp
  moreover have "skipSpace s = s"
    by (simp add: s_def skipSpace_def isSpace_def)
  ultimately show ?thesis
    unfolding s_def [symmetric] by (simp add: parseJSON_def skipSpace_def)
qed

lemma plain_value: "list_all plainChar ''value''"
  and plain_schedule: "list_all plainChar ''schedule''"
  and plain_windowType: "list_all plainChar ''windowType''"
  and plain_windowCron: "list_all plainChar ''windowCron''"
  by (simp_all add: plainChar_def byte_def)

lemma parse_PipelineApprovalPolicy:
  assumes "ValidString v"
  shows \<open>parseJSON (''{"value":'' @ encodeString v @ ''}'') = Ok (JObject [(''value'', JString v)]) []\<close>
proof -
  have "parseMembers (Suc (Suc (Suc 0))) 1 [] (CHR 0x22 # ''value'' @ CHR 0x22 # CHR '':'' # encodeString v @ ''}'')
      = Ok (JObject ([] @ [(''value'', JString v)])) []"
    using plain_value assms by (rule parseMembers_last_string)
  then have "parseJSON (CHR ''{'' # CHR 0x22 # ''value'' @ CHR 0x22 # CHR '':'' # encodeString v @ ''}'')
      = Ok (JObject ([] @ [(''value'', JString v)])) []"
    by (rule parseJSON_object)
  then show ?thesis by simp
qed

lemma parse_BackupPlanPolicy:
  assumes "ValidString v"
  shows \<open>parseJSON (''{"schedule":'' @ encodeString v @ ''}'') = Ok (JObject [(''schedule'', JString v)]) []\<close>
proof -
  have "parseMembers (Suc (Suc (Suc 0))) 1 [] (CHR 0x22 # ''schedule'' @ CHR 0x22 # CHR '':'' # encodeString v @ ''}'')
      = Ok (JObject ([] @ [(''schedule'', JString v)])) []"
    using plain_schedule assms by (rule parseMembers_last_string)
  then have "parseJSON (CHR ''{'' # CHR 0x22 # ''schedule'' @ CHR 0x22 # CHR '':'' # encodeString v @ ''}'')
      = Ok (JObject ([] @ [(''schedule'', JString v)])) []"
    by (rule parseJSON_object)
  then show ?thesis by simp
qed

lemma parse_WindowPolicy:
  assumes "ValidString v"
  shows \<open>parseJSON (''{"windowType":'' @ FormatInt i @ '',"windowCron":'' @ encodeString v @ ''}'')
           = Ok (JObject [(''windowType'', JNumber (FormatInt i)), (''windowCron'', JString v)]) []\<close>
proof -
  have "parseMembers (Suc (Suc 0)) 1 ([] @ [(''windowType'', JNumber (FormatInt i))])
          (CHR 0x22 # ''windowCron'' @ CHR 0x22 # CHR '':'' # encodeString v @ ''}'')
      = Ok (JObject (([] @ [(''windowType'', JNumber (FormatInt i))]) @ [(''windowCron'', JString v)])) []"
    using plain_windowCron assms by (rule parseMembers_last_string)
  then have "parseMembers (Suc (Suc (Suc 0))) 1 []
          (CHR 0x22 # ''windowType'' @ CHR 0x22 # CHR '':'' # FormatInt i @ CHR '','' # CHR 0x22
             # (''windowCron'' @ CHR 0x22 # CHR '':'' # encodeString v @ ''}''))
      = Ok (JObject (([] @ [(''windowType'', JNumber (FormatInt i))]) @ [(''windowCron'', JString v)])) []"
    using plain_windowType by (intro parseMembers_int_then)
  then have "parseJSON (CHR ''{'' # CHR 0x22 # ''windowType'' @ CHR 0x22 # CHR '':'' # FormatInt i @ CHR '','' # CHR 0x22
             # (''windowCron'' @ CHR 0x22 # CHR '':'' # encodeString v @ ''}''))
      = Ok (JObject (([] @ [(''windowType'', JNumber (FormatInt i))]) @ [(''windowCron'', JString v)])) []"
    by (rule parseJSON_object)
  then show ?thesis by simp
qed

lemma prepend_result: "prepend xs r = Some (str, rest) \<Longrightarrow> \<exists>str'. r = Some (str', rest)"
  by (auto simp: prepend_def split: option.splits)

lemma parseStringBody_shorter:
  "parseStringBody s = Some (str, rest) \<Longrightarrow> length rest < length s"
proof (induction "length s" arbitrary: s str rest rule: less_induct)
  case less
  show ?case
  proof (cases s)
    case Nil
    then show ?thesis using less.prems by simp
  next
    case (Cons c s')
    have IH: "length rest < length s"
      if p: "prepend xs (parseStringBody t) = Some (str, rest)" and l: "length t \<le> length s'" for t xs
    proof -
      obtain str' where "parseStringBody t = Some (str', rest)"
        using prepend_result [OF p] by blast
      then have "length rest < length t"
        using less.hyps [of t] l Cons by simp
      then show ?thesis using l Cons by simp
    qed
    obtain rr n where dec: "DecodeRune (c # s') = (rr, n)"
      by (cases "DecodeRune (c # s')")
    have n: "length (drop n (c # s')) \<le> length s'"
      using DecodeRune_size [OF dec] by simp
    show ?thesis
      using less.prems dec n unfolding Cons
      by (auto simp del: getu4.simps DecodeRune.simps drop_Suc_Cons
            split: if_splits list.splits option.splits dest!: IH [unfolded Cons])
  qed
qed


lemma skipSpace_le: "length (skipSpace s) \<le> length s"
  by (simp add: skipSpace_def length_dropWhile_le)

lemma skipSpace_Cons_le: "skipSpace s = c # t \<Longrightarrow> length t < length s"
  using skipSpace_le [of s] by simp

lemma stripPrefix_le: "stripPrefix p s = Some rest \<Longrightarrow> length rest \<le> length s"
  by (auto simp: stripPrefix_def split: if_splits)

lemma scanDigits_le: "scanDigits s = Some (ds, rest) \<Longrightarrow> length rest \<le> length s"
  by (auto simp: scanDigits_def length_dropWhile_le split: list.splits)

lemma scanInt_shorter: "scanInt s = Some (i, rest) \<Longrightarrow> length rest < length s"
  by (auto simp: scanInt_def length_dropWhile_le le_imp_less_Suc split: list.splits if_splits)

lemma scanFrac_le: "scanFrac s = Some (f, rest) \<Longrightarrow> length rest \<le> length s"
  by (auto simp: scanFrac_def split: list.splits if_splits option.splits dest!: scanDigits_le)

lemma scanExp_le: "scanExp s = Some (e, rest) \<Longrightarrow> length rest \<le> length s"
  by (auto simp: scanExp_def split: list.splits if_splits option.splits dest!: scanDigits_le)

lemma parseNumber_shorter: "parseNumber s = Some (lit, rest) \<Longrightarrow> length rest < length s"
  by (auto simp: parseNumber_def split: list.splits if_splits option.splits prod.splits
        dest!: scanInt_shorter scanFrac_le scanExp_le)

lemma parse_shorter_aux:
  "\<forall>d s acc acc' v r.
     (parseValue k d s = Ok v r \<longrightarrow> length r < length s) \<and>
     (parseMembers k d acc s = Ok v r \<longrightarrow> length r < length s) \<and>
     (parseElements k d acc' s = Ok v r \<longrightarrow> length r < length s)"
proof (induction k)
  case 0
  then show ?case by simp
next
  case (Suc k)
  have V: "\<And>d s v r. parseValue k d s = Ok v r \<Longrightarrow> length r < length s"
    and M: "\<And>d s acc v r. parseMembers k d acc s = Ok v r \<Longrightarrow> length r < length s"
    and E: "\<And>d s acc v r. parseElements k d acc s = Ok v r \<Longrightarrow> length r < length s"
    using Suc by blast+
  have V': "length r < length s" if "parseValue (Suc k) d s = Ok v r" for d s v r
  proof (cases s)
    case Nil
    then show ?thesis using that by simp
  next
    case (Cons c s')
    have sk: "\<And>c' t. skipSpace s' = c' # t \<Longrightarrow> length t < length s'"
      by (rule skipSpace_Cons_le)
    show ?thesis
      using that unfolding Cons
      by (fastforce split: if_splits list.splits option.splits simp del: parseMembers.simps parseElements.simps
            dest: M E sk parseStringBody_shorter parseNumber_shorter stripPrefix_le)
  qed
  have M': "length r < length s" if "parseMembers (Suc k) d acc s = Ok v r" for d s acc v r
    using that
    by (fastforce split: if_splits list.splits option.splits scan.splits
          dest: V M skipSpace_Cons_le parseStringBody_shorter
          dest: order_less_le_trans [OF _ skipSpace_le])
  have E': "length r < length s" if "parseElements (Suc k) d acc s = Ok v r" for d s acc v r
    using that
    by (fastforce split: if_splits list.splits option.splits scan.splits
          dest: V E skipSpace_Cons_le
          dest: order_less_le_trans [OF _ skipSpace_le])
  show ?case
    using V' M' E' by blast
qed


lemma parseValue_shorter: "parseValue k d s = Ok v r \<Longrightarrow> length r < length s"
  using parse_shorter_aux by blast

lemma parse_fuel_aux:
  "\<forall>d s acc acc'.
     (2 * length s < k \<longrightarrow> parseValue k d s \<noteq> Fuel) \<and>
     (2 * length s < k \<longrightarrow> parseMembers k d acc s \<noteq> Fuel) \<and>
     (2 * length s + 1 < k \<longrightarrow> parseElements k d acc' s \<noteq> Fuel)"
proof (induction k)
  case 0
  then show ?case by simp
next
  case (Suc k)
  have V: "\<And>d s. 2 * length s < k \<Longrightarrow> parseValue k d s \<noteq> Fuel"
    and M: "\<And>d s acc. 2 * length s < k \<Longrightarrow> parseMembers k d acc s \<noteq> Fuel"
    and E: "\<And>d s acc. 2 * length s + 1 < k \<Longrightarrow> parseElements k d acc s \<noteq> Fuel"
    using Suc by blast+
  have V': "parseValue (Suc k) d s \<noteq> Fuel" if l: "2 * length s < Suc k" for d s
  proof (cases s)
    case Nil
    then show ?thesis by simp
  next
    case (Cons c s')
    have m: "parseMembers k (Suc d) [] (c' # t) \<noteq> Fuel" if "skipSpace s' = c' # t" for c' t
    proof -
      have "length (c' # t) \<le> length s'" using skipSpace_le [of s'] that by simp
      then show ?thesis using l Cons by (intro M) simp
    qed
    have e: "parseElements k (Suc d) [] (c' # t) \<noteq> Fuel" if "skipSpace s' = c' # t" for c' t
    proof -
      have "length (c' # t) \<le> length s'" using skipSpace_le [of s'] that by simp
      then show ?thesis using l Cons by (intro E) simp
    qed
    show ?thesis
      unfolding Cons using m e
      by (auto split: if_splits list.splits option.splits simp del: parseMembers.simps parseElements.simps)
  qed
  have M': "parseMembers (Suc k) d acc s \<noteq> Fuel" if l: "2 * length s < Suc k" for d s acc
  proof -
    have v: "parseValue k d t \<noteq> Fuel" if "length t < length s" for t
      using that l by (intro V) simp
    have m: "parseMembers k d acc2 t \<noteq> Fuel" if "length t < length s" for t acc2
      using that l by (intro M) simp
    show ?thesis
    proof (cases s)
      case Nil
      then show ?thesis by simp
    next
      case (Cons c s1)
      show ?thesis
      proof (cases "parseStringBody s1")
        case None
        then show ?thesis by (simp add: Cons)
      next
        case (Some a)
        obtain key s2 where a: "a = (key, s2)" by (cases a)
        have l2: "length s2 < length s1" using Some a parseStringBody_shorter by blast
        show ?thesis
        proof (cases "skipSpace s2")
          case Nil
          then show ?thesis by (simp add: Cons Some a)
        next
          case c2: (Cons c2 s3)
          have l3: "length s3 < length s2" using c2 by (rule skipSpace_Cons_le)
          have l4: "length (skipSpace s3) < length s"
            using skipSpace_le [of s3] l3 l2 Cons by simp
          show ?thesis
          proof (cases "parseValue k d (skipSpace s3)")
            case (Ok v s4)
            have l5: "length s4 < length (skipSpace s3)" using Ok by (rule parseValue_shorter)
            have "length (skipSpace t) < length s" if "skipSpace s4 = c4 # t" for c4 t
              using skipSpace_le [of t] skipSpace_Cons_le [OF that] l5 l4 by simp
            then show ?thesis
              using m unfolding Cons
              by (subst parseMembers.simps(2))
                 (auto simp: Some a c2 Ok split: list.splits simp del: parseMembers.simps)
          next
            case Bad
            then show ?thesis by (simp add: Cons Some a c2)
          next
            case Fuel
            then show ?thesis using v [OF l4] by simp
          qed
        qed
      qed
    qed
  qed
  have E': "parseElements (Suc k) d acc s \<noteq> Fuel" if l: "2 * length s + 1 < Suc k" for d s acc
  proof (cases "parseValue k d s")
    case (Ok v s1)
    have l1: "length s1 < length s" using Ok by (rule parseValue_shorter)
    have "parseElements k d acc2 (skipSpace t) \<noteq> Fuel" if "skipSpace s1 = c # t" for c t acc2
    proof -
      have "length (skipSpace t) < length s1"
        using skipSpace_le [of t] skipSpace_Cons_le [OF that] by simp
      then show ?thesis using l l1 by (intro E) simp
    qed
    then show ?thesis
      by (subst parseElements.simps(2))
         (auto simp: Ok split: list.splits simp del: parseElements.simps)
  next
    case Bad
    then show ?thesis by simp
  next
    case Fuel
    then show ?thesis using V [of s d] l by simp
  qed
  show ?case
    using V' M' E' by blast
qed

lemma parseJSON_fuel: "parseJSON s \<noteq> Fuel"
proof -
  have "2 * length (skipSpace s) < Suc (2 * length s)"
    using skipSpace_le [of s] by simp
  then have "parseValue (Suc (2 * length s)) 0 (skipSpace s) \<noteq> Fuel"
    using parse_fuel_aux by blast
  then show ?thesis
    by (auto simp: parseJSON_def split: scan.splits)
qed

lemma json_Unmarshal_fuel: "json_Unmarshal flds zero data \<noteq> Inl OutOfFuel"
  using parseJSON_fuel [of data]
  by (auto simp: json_Unmarshal_def split: scan.splits json.splits prod.splits option.splits)

section \<open>Properties of the policy model\<close>

lemma String_ff:
  \<open>PipelineApprovalPolicy_String \<lparr>Value = [CHR 0xFF]\<rparr> = Inr (''{"value":"'' @ [CHR 0x5C] @ ''ufffd"}'')\<close>
  by (simp add: PipelineApprovalPolicy_String_def Marshal_PipelineApprovalPolicy_def encodeString_def
        byte_def RuneError_def)

lemma parse_ff:
  \<open>parseJSON (''{"value":"'' @ [CHR 0x5C] @ ''ufffd"}'') =
     Ok (JObject [(''value'', JString [CHR 0xEF, CHR 0xBF, CHR 0xBD])]) []\<close>
proof -
  have "parseMembers (Suc (Suc (Suc 0))) 1 []
          (CHR 0x22 # ''value'' @ CHR 0x22 # CHR '':'' # CHR 0x22 # CHR 0x5C # ''ufffd'' @ CHR 0x22 # ''}'')
        = Ok (JObject [(''value'', JString [CHR 0xEF, CHR 0xBF, CHR 0xBD])]) []"
    by (simp add: skipSpace_def isSpace_def hexVal_def byte_def EncodeRune_def prepend_def char_of_eq_iff)
  then have "parseJSON (CHR ''{'' # CHR 0x22 # ''value'' @ CHR 0x22 # CHR '':'' # CHR 0x22 # CHR 0x5C # ''ufffd'' @ CHR 0x22 # ''}'')
        = Ok (JObject [(''value'', JString [CHR 0xEF, CHR 0xBF, CHR 0xBD])]) []"
    by (rule parseJSON_object)
  then show ?thesis by simp
qed

lemma natDigits_1: "natDigits (Suc 0) = ''1''"
  by (subst natDigits.simps) (simp add: char_of_eq_iff)

lemma ValidString_ascii: "list_all (\<lambda>c. byte c < 0x80) s \<Longrightarrow> ValidString s"
  by (induction s) (simp_all add: RuneError_def)

lemma Valid_always: "ValidString PipelineApprovalValueManualAlways"
  by (rule ValidString_ascii) (simp add: PipelineApprovalValueManualAlways_def byte_def)

lemma Valid_daily: "ValidString BackupPlanPolicyScheduleDaily"
  by (rule ValidString_ascii) (simp add: BackupPlanPolicyScheduleDaily_def byte_def)

lemma Valid_cron: "ValidString ''0 3 * * 1''"
  by (rule ValidString_ascii) (simp add: byte_def)

lemma Fields_star: \<open>Fields ''* * * * *'' = [''*'', ''*'', ''*'', ''*'', ''*'']\<close>
  by (simp add: Fields_def FieldsFunc_def IsSpace_def byte_def)

lemma Fields_nac: \<open>Fields ''not-a-cron'' = [''not-a-cron'']\<close>
  by (simp add: Fields_def FieldsFunc_def IsSpace_def byte_def)

lemma getField_star: "min_bound r \<le> max_bound r \<Longrightarrow> getField ''*'' r = None"
  by (simp add: getField_def FieldsFunc_def getRange_def byte_def Let_def)

lemma getField_zero: "getField ''0'' seconds = None"
  by (simp add: getField_def FieldsFunc_def getRange_def byte_def Let_def seconds_def
        parseIntOrName_def mustParseInt_def ParseInt_def digitsValue_def isDigit_def)

lemma cron_star: \<open>cron_Parse L ''* * * * *'' = Parsed\<close>
  by (simp add: cron_Parse_def HasPrefix_def Fields_star normalizeFields_def getField_star getField_zero
        minutes_def hours_def dom_def months_def dow_def)

lemma cron_nac: \<open>cron_Parse L ''not-a-cron'' = ParseError (FieldCount 1)\<close>
  by (simp add: cron_Parse_def HasPrefix_def Fields_nac normalizeFields_def)

lemma cron_empty: \<open>cron_Parse L [] = ParseError EmptySpec\<close>
  by (simp add: cron_Parse_def)


lemmas policy_consts = PolicyTypePipelineApproval_def PolicyTypeBackupPlan_def PolicyTypeWindow_def

lemma encodeStringBody_safe:
  "list_all (\<lambda>c. byte c < 0x80 \<and> htmlSafe (byte c)) s \<Longrightarrow> encodeStringBody s = s"
  by (induction s) simp_all

lemma natDigits_small: "n < 10 \<Longrightarrow> natDigits n = [char_of (48 + n)]"
  by (subst natDigits.simps) simp

lemma FormatInt_0: "FormatInt 0 = ''0''"
  by (simp add: FormatInt_def natDigits_small char_of_eq_iff)

lemma FormatInt_2: "FormatInt 2 = ''2''"
  by (simp add: FormatInt_def natDigits_small char_of_eq_iff)

lemma parse_window_star:
  \<open>parseJSON ''{"windowType":0,"windowCron":"* * * * *"}'' =
     Ok (JObject [(''windowType'', JNumber ''0''), (''windowCron'', JString ''* * * * *'')]) []\<close>
proof -
  have v: "ValidString ''* * * * *''"
    by (rule ValidString_ascii) (simp add: byte_def)
  have e: "encodeStringBody ''* * * * *'' = ''* * * * *''"
    by (rule encodeStringBody_safe) (simp add: byte_def htmlSafe_def)
  show ?thesis
    using parse_WindowPolicy [OF v, of 0, unfolded encodeString_def e FormatInt_0] by simp
qed

lemma parse_window_nac:
  \<open>parseJSON ''{"windowType":0,"windowCron":"not-a-cron"}'' =
     Ok (JObject [(''windowType'', JNumber ''0''), (''windowCron'', JString ''not-a-cron'')]) []\<close>
proof -
  have v: "ValidString ''not-a-cron''"
    by (rule ValidString_ascii) (simp add: byte_def)
  have e: "encodeStringBody ''not-a-cron'' = ''not-a-cron''"
    by (rule encodeStringBody_safe) (simp add: byte_def htmlSafe_def)
  show ?thesis
    using parse_WindowPolicy [OF v, of 0, unfolded encodeString_def e FormatInt_0] by simp
qed

lemma parse_window_default:
  \<open>parseJSON ''{"windowType":2,"windowCron":""}'' =
     Ok (JObject [(''windowType'', JNumber ''2''), (''windowCron'', JString [])]) []\<close>
  using parse_WindowPolicy [of "[]" 2] by (simp add: FormatInt_2 encodeString_def)

lemma parse_backup_unset:
  \<open>parseJSON ''{"schedule":"UNSET"}'' = Ok (JObject [(''schedule'', JString ''UNSET'')]) []\<close>
proof -
  have v: "ValidString ''UNSET''"
    by (rule ValidString_ascii) (simp add: byte_def)
  have e: "encodeStringBody ''UNSET'' = ''UNSET''"
    by (rule encodeStringBody_safe) (simp add: byte_def htmlSafe_def)
  show ?thesis
    using parse_BackupPlanPolicy [OF v, unfolded encodeString_def e] by simp
qed

lemma ParseInt_0: "ParseInt ''0'' = Some 0"
  by (simp add: ParseInt_def digitsValue_def isDigit_def byte_def)

lemma ParseInt_2: "ParseInt ''2'' = Some 2"
  by (simp add: ParseInt_def digitsValue_def isDigit_def byte_def)

lemma Unmarshal_window_star:
  \<open>UnmarshalWindowPolicy ''{"windowType":0,"windowCron":"* * * * *"}'' =
     Inr \<lparr>WindowType = 0, WindowCron = ''* * * * *''\<rparr>\<close>
  by (simp add: UnmarshalWindowPolicy_def json_Unmarshal_def parse_window_star WindowPolicy_fields_def
        findField_def ParseInt_0)

lemma Unmarshal_window_nac:
  \<open>UnmarshalWindowPolicy ''{"windowType":0,"windowCron":"not-a-cron"}'' =
     Inr \<lparr>WindowType = 0, WindowCron = ''not-a-cron''\<rparr>\<close>
  by (simp add: UnmarshalWindowPolicy_def json_Unmarshal_def parse_window_nac WindowPolicy_fields_def
        findField_def ParseInt_0)

lemma Unmarshal_window_default:
  \<open>UnmarshalWindowPolicy ''{"windowType":2,"windowCron":""}'' =
     Inr \<lparr>WindowType = 2, WindowCron = []\<rparr>\<close>
  by (simp add: UnmarshalWindowPolicy_def json_Unmarshal_def parse_window_default WindowPolicy_fields_def
        findField_def ParseInt_2)

lemma ValidatePolicy_window:
  "payload \<noteq> [] \<Longrightarrow>
   ValidatePolicy L PolicyTypeWindow payload =
     (case UnmarshalWindowPolicy payload of
        Inl err \<Rightarrow> Invalid err
      | Inr ap \<Rightarrow>
          (case cron_Parse L (WindowCron ap) of
             ParseError err \<Rightarrow> Invalid (CronError err)
           | ParsePanic \<Rightarrow> ValidationPanic
           | Parsed \<Rightarrow> Valid))"
  by (simp add: ValidatePolicy_def PolicyTypes_def policy_consts)

text \<open>
  Claim C6: ValidatePolicy accepts every known type with an empty payload, refuses every
  unknown type whatever the payload, and for a non-empty payload of a known type accepts
  exactly when the payload unmarshals into the struct of the type and the value meets
  the constraint of the type: an approval value of ManualNever or ManualAlways, a
  schedule of Unset, Daily or Weekly, a window cron that the five-field parser accepts.
  A window payload with the cron \<^verbatim>\<open>* * * * *\<close> is accepted and one with
  \<^verbatim>\<open>not-a-cron\<close> is refused with the parser's error (one field where five are
  expected).
\<close>

theorem C6_ValidatePolicy:
  \<open>(PolicyTypes pType \<longrightarrow> ValidatePolicy L pType [] = Valid)
   \<and> (\<not> PolicyTypes pType \<longrightarrow> ValidatePolicy L pType payload = Invalid (InvalidPolicyType pType))
   \<and> (payload \<noteq> [] \<longrightarrow>
        (ValidatePolicy L PolicyTypePipelineApproval payload = Valid \<longleftrightarrow>
           (\<exists>pa. UnmarshalPipelineApprovalPolicy payload = Inr pa
                 \<and> (Value pa = PipelineApprovalValueManualNever \<or> Value pa = PipelineApprovalValueManualAlways)))
      \<and> (ValidatePolicy L PolicyTypeBackupPlan payload = Valid \<longleftrightarrow>
           (\<exists>bp. UnmarshalBackupPlanPolicy payload = Inr bp
                 \<and> (Schedule bp = BackupPlanPolicyScheduleUnset \<or> Schedule bp = BackupPlanPolicyScheduleDaily
                      \<or> Schedule bp = BackupPlanPolicyScheduleWeekly)))
      \<and> (ValidatePolicy L PolicyTypeWindow payload = Valid \<longleftrightarrow>
           (\<exists>ap. UnmarshalWindowPolicy payload = Inr ap \<and> cron_Parse L (WindowCron ap) = Parsed)))
   \<and> ValidatePolicy L PolicyTypeWindow ''{"windowType":0,"windowCron":"* * * * *"}'' = Valid
   \<and> ValidatePolicy L PolicyTypeWindow ''{"windowType":0,"windowCron":"not-a-cron"}''
       = Invalid (CronError (FieldCount 1))\<close>
proof -
  have a: "PolicyTypes pType \<longrightarrow> ValidatePolicy L pType [] = Valid"
    by (simp add: ValidatePolicy_def)
  have b: "\<not> PolicyTypes pType \<longrightarrow> ValidatePolicy L pType payload = Invalid (InvalidPolicyType pType)"
    by (simp add: ValidatePolicy_def)
  have c: "payload \<noteq> [] \<longrightarrow>
        (ValidatePolicy L PolicyTypePipelineApproval payload = Valid \<longleftrightarrow>
           (\<exists>pa. UnmarshalPipelineApprovalPolicy payload = Inr pa
                 \<and> (Value pa = PipelineApprovalValueManualNever \<or> Value pa = PipelineApprovalValueManualAlways)))"
    by (auto simp: ValidatePolicy_def PolicyTypes_def split: sum.splits)
  have d: "payload \<noteq> [] \<longrightarrow>
        (ValidatePolicy L PolicyTypeBackupPlan payload = Valid \<longleftrightarrow>
           (\<exists>bp. UnmarshalBackupPlanPolicy payload = Inr bp
                 \<and> (Schedule bp = BackupPlanPolicyScheduleUnset \<or> Schedule bp = BackupPlanPolicyScheduleDaily
                      \<or> Schedule bp = BackupPlanPolicyScheduleWeekly)))"
    by (auto simp: ValidatePolicy_def PolicyTypes_def policy_consts split: sum.splits)
  have e: "payload \<noteq> [] \<longrightarrow>
        (ValidatePolicy L PolicyTypeWindow payload = Valid \<longleftrightarrow>
           (\<exists>ap. UnmarshalWindowPolicy payload = Inr ap \<and> cron_Parse L (WindowCron ap) = Parsed))"
    by (auto simp: ValidatePolicy_window split: sum.splits cron_result.splits)
  have f: \<open>ValidatePolicy L PolicyTypeWindow ''{"windowType":0,"windowCron":"* * * * *"}'' = Valid\<close>
    by (simp add: ValidatePolicy_window Unmarshal_window_star cron_star)
  have g: \<open>ValidatePolicy L PolicyTypeWindow ''{"windowType":0,"windowCron":"not-a-cron"}''
       = Invalid (CronError (FieldCount 1))\<close>
    by (simp add: ValidatePolicy_window Unmarshal_window_nac cron_nac)
  show ?thesis
    using a b c d e f g by blast
qed

lemma default_window:
  \<open>GetDefaultPolicy PolicyTypeWindow = Inr ''{"windowType":2,"windowCron":""}''\<close>
  by (simp add: GetDefaultPolicy_def policy_consts WindowPolicy_String_def Marshal_WindowPolicy_def
        WindowTypeUnknown_def WindowCronUnset_def FormatInt_def encodeString_def natDigits_small
        char_of_eq_iff)

lemma default_backup:
  \<open>GetDefaultPolicy PolicyTypeBackupPlan = Inr ''{"schedule":"UNSET"}''\<close>
  by (simp add: GetDefaultPolicy_def policy_consts BackupPlanPolicy_String_def Marshal_BackupPlanPolicy_def
        BackupPlanPolicyScheduleUnset_def encodeString_def byte_def htmlSafe_def)

lemma Unmarshal_backup_unset:
  \<open>UnmarshalBackupPlanPolicy ''{"schedule":"UNSET"}'' = Inr \<lparr>Schedule = ''UNSET''\<rparr>\<close>
  by (simp add: UnmarshalBackupPlanPolicy_def json_Unmarshal_def parse_backup_unset BackupPlanPolicy_fields_def
        findField_def)

text \<open>
  Claim C7: the default window policy, whose cron is the empty string, should pass
  validation. It does not: GetDefaultPolicy gives the payload below and ValidatePolicy
  refuses it, because the cron parser refuses the empty spec. The default of the backup
  plan, whose schedule is the Unset constant, is accepted.
\<close>

theorem C7_default_window_policy_rejected:
  \<open>GetDefaultPolicy PolicyTypeWindow = Inr ''{"windowType":2,"windowCron":""}''
   \<and> ValidatePolicy L PolicyTypeWindow ''{"windowType":2,"windowCron":""}'' = Invalid (CronError EmptySpec)
   \<and> GetDefaultPolicy PolicyTypeBackupPlan = Inr ''{"schedule":"UNSET"}''
   \<and> ValidatePolicy L PolicyTypeBackupPlan ''{"schedule":"UNSET"}'' = Valid\<close>
proof -
  have \<open>ValidatePolicy L PolicyTypeWindow ''{"windowType":2,"windowCron":""}'' = Invalid (CronError EmptySpec)\<close>
    by (simp add: ValidatePolicy_window Unmarshal_window_default cron_empty)
  moreover have \<open>ValidatePolicy L PolicyTypeBackupPlan ''{"schedule":"UNSET"}'' = Valid\<close>
    by (simp add: ValidatePolicy_def PolicyTypes_def policy_consts Unmarshal_backup_unset
          BackupPlanPolicyScheduleUnset_def)
  ultimately show ?thesis
    using default_window default_backup by simp
qed

theorem C6_ValidatePolicy_witness:
  \<open>ValidatePolicy (\<lambda>z. True) PolicyTypeWindow [] = Valid
   \<and> ValidatePolicy (\<lambda>z. True) ''bb.policy.other'' ''{"windowType":0,"windowCron":"* * * * *"}''
        = Invalid (InvalidPolicyType ''bb.policy.other'')
   \<and> ValidatePolicy (\<lambda>z. True) PolicyTypeWindow ''{"windowType":0,"windowCron":"* * * * *"}'' = Valid
   \<and> UnmarshalWindowPolicy ''{"windowType":0,"windowCron":"* * * * *"}''
        = Inr \<lparr>WindowType = 0, WindowCron = ''* * * * *''\<rparr>
   \<and> cron_Parse (\<lambda>z. True) ''* * * * *'' = Parsed\<close>
proof -
  have k: "PolicyTypes PolicyTypeWindow" by (simp add: PolicyTypes_def)
  have u: "\<not> PolicyTypes ''bb.policy.other''" by (simp add: PolicyTypes_def policy_consts)
  have n: \<open>''{"windowType":0,"windowCron":"* * * * *"}'' \<noteq> []\<close> by simp
  show ?thesis
    using C6_ValidatePolicy [of PolicyTypeWindow "\<lambda>z. True" \<open>''{"windowType":0,"windowCron":"* * * * *"}''\<close>]
      C6_ValidatePolicy [of "''bb.policy.other''" "\<lambda>z. True" \<open>''{"windowType":0,"windowCron":"* * * * *"}''\<close>]
      k u n Unmarshal_window_star cron_star [of "\<lambda>z. True"]
    by simp
qed

text \<open>
  Claim C8 as stated (for every policy value) fails: a value byte that is not valid
  UTF-8 is written as the escape of U+FFFD and read back as the three bytes of U+FFFD.
\<close>

theorem C8_invalid_utf8_not_restored:
  \<open>PipelineApprovalPolicy_String \<lparr>Value = [CHR 0xFF]\<rparr> = Inr (''{"value":"'' @ [CHR 0x5C] @ ''ufffd"}'')
   \<and> UnmarshalPipelineApprovalPolicy (''{"value":"'' @ [CHR 0x5C] @ ''ufffd"}'')
       = Inr \<lparr>Value = [CHR 0xEF, CHR 0xBF, CHR 0xBD]\<rparr>
   \<and> \<lparr>Value = [CHR 0xEF, CHR 0xBF, CHR 0xBD]\<rparr> \<noteq> \<lparr>Value = [CHR 0xFF]\<rparr>\<close>
  using String_ff parse_ff
  by (simp add: UnmarshalPipelineApprovalPolicy_def json_Unmarshal_def PipelineApprovalPolicy_fields_def
        findField_def)

text \<open>
  Claim C8, amended: for every policy value of the three types whose string field is
  valid UTF-8 (and any window type), String gives a text and the Unmarshal function of
  the type reads that text back as the very same value.
\<close>

theorem C8_roundtrip_valid_utf8:
  "(ValidString (Value pa) \<longrightarrow>
      (\<exists>s. PipelineApprovalPolicy_String pa = Inr s \<and> UnmarshalPipelineApprovalPolicy s = Inr pa))
   \<and> (ValidString (Schedule bp) \<longrightarrow>
      (\<exists>s. BackupPlanPolicy_String bp = Inr s \<and> UnmarshalBackupPlanPolicy s = Inr bp))
   \<and> (ValidString (WindowCron ap) \<longrightarrow>
      (\<exists>s. WindowPolicy_String ap = Inr s \<and> UnmarshalWindowPolicy s = Inr ap))"
proof (intro conjI impI)
  assume v: "ValidString (Value pa)"
  show "\<exists>s. PipelineApprovalPolicy_String pa = Inr s \<and> UnmarshalPipelineApprovalPolicy s = Inr pa"
    using parse_PipelineApprovalPolicy [OF v]
    by (simp add: PipelineApprovalPolicy_String_def Marshal_PipelineApprovalPolicy_def
          UnmarshalPipelineApprovalPolicy_def json_Unmarshal_def
          PipelineApprovalPolicy_fields_def findField_def)
next
  assume v: "ValidString (Schedule bp)"
  show "\<exists>s. BackupPlanPolicy_String bp = Inr s \<and> UnmarshalBackupPlanPolicy s = Inr bp"
    using parse_BackupPlanPolicy [OF v]
    by (simp add: BackupPlanPolicy_String_def Marshal_BackupPlanPolicy_def
          UnmarshalBackupPlanPolicy_def json_Unmarshal_def
          BackupPlanPolicy_fields_def findField_def)
next
  assume v: "ValidString (WindowCron ap)"
  have "ParseInt (FormatInt (sint (WindowType ap))) = Some (sint (WindowType ap))"
    using sint_ge [of "WindowType ap"] sint_lt [of "WindowType ap"]
    by (intro ParseInt_FormatInt) simp_all
  then show "\<exists>s. WindowPolicy_String ap = Inr s \<and> UnmarshalWindowPolicy s = Inr ap"
    using parse_WindowPolicy [OF v, of "sint (WindowType ap)"]
    by (simp add: WindowPolicy_String_def Marshal_WindowPolicy_def
          UnmarshalWindowPolicy_def json_Unmarshal_def
          WindowPolicy_fields_def findField_def)
qed

theorem C8_roundtrip_valid_utf8_witness:
  \<open>UnmarshalPipelineApprovalPolicy ''{"value":"MANUAL_APPROVAL_ALWAYS"}''
     = Inr \<lparr>Value = PipelineApprovalValueManualAlways\<rparr>
   \<and> UnmarshalBackupPlanPolicy ''{"schedule":"DAILY"}'' = Inr \<lparr>Schedule = BackupPlanPolicyScheduleDaily\<rparr>
   \<and> UnmarshalWindowPolicy ''{"windowType":1,"windowCron":"0 3 * * 1"}''
     = Inr \<lparr>WindowType = WindowTypeDeny, WindowCron = ''0 3 * * 1''\<rparr>\<close>
proof -
  have a: \<open>PipelineApprovalPolicy_String \<lparr>Value = PipelineApprovalValueManualAlways\<rparr>
      = Inr ''{"value":"MANUAL_APPROVAL_ALWAYS"}''\<close>
    by (simp add: PipelineApprovalPolicy_String_def Marshal_PipelineApprovalPolicy_def encodeString_def
          PipelineApprovalValueManualAlways_def byte_def htmlSafe_def)
  have b: \<open>BackupPlanPolicy_String \<lparr>Schedule = BackupPlanPolicyScheduleDaily\<rparr> = Inr ''{"schedule":"DAILY"}''\<close>
    by (simp add: BackupPlanPolicy_String_def Marshal_BackupPlanPolicy_def encodeString_def
          BackupPlanPolicyScheduleDaily_def byte_def htmlSafe_def)
  have c: \<open>WindowPolicy_String \<lparr>WindowType = WindowTypeDeny, WindowCron = ''0 3 * * 1''\<rparr>
      = Inr ''{"windowType":1,"windowCron":"0 3 * * 1"}''\<close>
    by (simp add: WindowPolicy_String_def Marshal_WindowPolicy_def encodeString_def FormatInt_def
          WindowTypeDeny_def byte_def htmlSafe_def natDigits_1)
  show ?thesis
    using C8_roundtrip_valid_utf8 [of "\<lparr>Value = PipelineApprovalValueManualAlways\<rparr>"
        "\<lparr>Schedule = BackupPlanPolicyScheduleDaily\<rparr>"
        "\<lparr>WindowType = WindowTypeDeny, WindowCron = ''0 3 * * 1''\<rparr>"]
      Valid_always Valid_daily Valid_cron a b c
    by simp
qed

section \<open>Properties of the scanner\<close>

lemmas ex_defs = quietServices_def quietDriver_def matchingServices_def matchingDriver_def
  unreachableServices_def instance1_def instance2_def database1_def env1_def dailyPolicyMap_def
  oldDailySetting_def freshDailySetting_def hourlessSetting_def disabledSetting_def
  backupLookupFailsServices_def graceServices_def hourlessServices_def disabledServices_def
  firstInstanceFailsServices_def twoInstancesServices_def

lemmas sched_defs = BackupPlanPolicyScheduleUnset_def BackupPlanPolicyScheduleDaily_def BackupPlanPolicyScheduleWeekly_def

lemmas backup_defs = checkBackupAnomaly_def checkBackupPolicyViolation_def checkBackupMissing_def
  backupMissingAnomalyPayload_def backupPolicyAnomalyPayload_def settingSchedule_def upsertActive_def archive_def

text \<open>
  Claim C1: when the live dump equals the schema of the latest history record, the drift
  detector should archive the DatabaseSchemaDrift anomaly of the database. It does not:
  with a matching record the second archive request, too, is for the DatabaseConnection
  type, and the ledger sees no request for DatabaseSchemaDrift.
\<close>

theorem C1_drift_match_archives_connection_type:
  "checkDatabaseAnomaly matchingServices instance1 database1 =
     [Archive \<lparr>DatabaseId = 42, Type = AnomalyDatabaseConnection\<rparr>,
      DriverDump ''shop'', DriverFindMigrationHistoryList ''shop'',
      Archive \<lparr>DatabaseId = 42, Type = AnomalyDatabaseConnection\<rparr>,
      DriverClose]
   \<and> ledgerRequests AnomalyDatabaseSchemaDrift (checkDatabaseAnomaly matchingServices instance1 database1) = []"
  by (simp add: checkDatabaseAnomaly_def checkSchemaDrift_def archive_def ledgerRequests_def ex_defs)

text \<open>
  Claim C2: a failure to resolve the admin data source of one instance should skip that
  instance only. With two instances of which the first fails and the second resolves,
  the round ends at the log line of the first: the second instance is never scanned.
\<close>

theorem C2_round_stops_at_failed_instance:
  "ComposeInstanceAdminDataSource firstInstanceFailsServices instance2 = Inr instance2
   \<and> scanRound firstInstanceFailsServices {} =
       ([LogDebug ''New anomaly scanner round started...'' None,
         LogError ''Failed to retrieve instance admin connection info'' None], {})"
  by (simp add: scanRound_def ex_defs)

text \<open>
  Claim C3: when the lookup of the Done backups fails, the DatabaseBackupMissing type
  should be left alone. The code logs the failure and goes on with the list it got: with
  an enabled setting past its maximal age and a failed lookup it upserts an active
  DatabaseBackupMissing anomaly.
\<close>

theorem C3_backup_lookup_failure_upserts:
  "checkBackupAnomaly backupLookupFailsServices instance1 database1 dailyPolicyMap =
     ([Archive \<lparr>DatabaseId = 42, Type = AnomalyDatabaseBackupPolicyViolation\<rparr>,
       LogError ''Failed to retrieve backup list'' None,
       Upsert \<lparr>CreatorId = 1, InstanceId = 7, DatabaseId = 42,
               Type = AnomalyDatabaseBackupMissing, Payload = ''{}''\<rparr>],
      Return)"
  by (simp add: backup_defs ex_defs sched_defs)

text \<open>
  Claim C4 as stated (no ledger action for DatabaseBackupMissing within the grace
  period) fails: for an enabled daily setting changed one hour ago the detector sends an
  archive request for the type.
\<close>

theorem C4_grace_period_archives:
  "Enabled freshDailySetting
   \<and> BackupSetting.UpdatedTs freshDailySetting > Now graceServices 0 - spec_maxAge freshDailySetting
   \<and> ledgerRequests AnomalyDatabaseBackupMissing
        (fst (checkBackupAnomaly graceServices instance1 database1 dailyPolicyMap)) =
       [Archive \<lparr>DatabaseId = 42, Type = AnomalyDatabaseBackupMissing\<rparr>]"
  by (simp add: backup_defs ex_defs sched_defs ledgerRequests_def spec_maxAge_def)

lemma ledgerRequests_append: "ledgerRequests t (xs @ ys) = ledgerRequests t xs @ ledgerRequests t ys"
  by (simp add: ledgerRequests_def)

lemma ledgerRequests_upsertActive:
  "ledgerRequests t (upsertActive s u t') = (if AnomalyUpsert.Type u = t then [Upsert u] else [])"
  by (simp add: ledgerRequests_def upsertActive_def split: option.splits)

lemma ledgerRequests_archive:
  "ledgerRequests t (archive s a t') = (if AnomalyArchive.Type a = t then [Archive a] else [])"
  by (simp add: ledgerRequests_def archive_def split: option.splits)

lemma ledgerRequests_Nil: "ledgerRequests t [] = []"
  by (simp add: ledgerRequests_def)

lemma ledgerRequests_LogError: "ledgerRequests t (LogError m ty # es) = ledgerRequests t es"
  by (simp add: ledgerRequests_def)

lemmas ledger_simps = ledgerRequests_append ledgerRequests_upsertActive ledgerRequests_archive
  ledgerRequests_Nil ledgerRequests_LogError

lemma ledgerRequests_checkBackupPolicyViolation_other:
  "t \<noteq> AnomalyDatabaseBackupPolicyViolation \<Longrightarrow>
   ledgerRequests t (checkBackupPolicyViolation s i d policy sched) = []"
  by (auto simp: checkBackupPolicyViolation_def ledger_simps split: option.splits sum.splits)

lemma ledgerRequests_checkBackupMissing_other:
  "t \<noteq> AnomalyDatabaseBackupMissing \<Longrightarrow>
   ledgerRequests t (checkBackupMissing s i d bs) = []"
proof -
  assume t: "t \<noteq> AnomalyDatabaseBackupMissing"
  obtain logs p where r: "backupMissingAnomalyPayload s d bs = (logs, p)"
    by (cases "backupMissingAnomalyPayload s d bs")
  have logs: "ledgerRequests t logs = []"
    using r
    by (auto simp: backupMissingAnomalyPayload_def Let_def ledger_simps
          split: option.splits prod.splits if_splits)
  show ?thesis
    using t logs by (auto simp: checkBackupMissing_def r ledger_simps split: option.splits sum.splits)
qed


lemma backupMissingAnomalyPayload_logs:
  "backupMissingAnomalyPayload s d bs = (logs, p) \<Longrightarrow> ledgerRequests t logs = []"
  by (auto simp: backupMissingAnomalyPayload_def Let_def ledger_simps
        split: option.splits prod.splits if_splits)

lemma ledgerRequests_checkBackupMissing_None:
  assumes "backupMissingAnomalyPayload s d bs = (logs, None)"
  shows "ledgerRequests AnomalyDatabaseBackupMissing (checkBackupMissing s i d bs) =
           [Archive \<lparr>DatabaseId = Database.ID d, Type = AnomalyDatabaseBackupMissing\<rparr>]"
  using assms backupMissingAnomalyPayload_logs [OF assms]
  by (simp add: checkBackupMissing_def ledger_simps)

lemma checkBackupAnomaly_runs:
  assumes "settingLookupOk (FindBackupSetting s (Database.ID d))"
    and "policyMap (EnvironmentId i) = Some policy"
  shows "checkBackupAnomaly s i d policyMap =
           (checkBackupPolicyViolation s i d policy
              (spec_effectiveSchedule (settingRow (FindBackupSetting s (Database.ID d))))
            @ checkBackupMissing s i d (fst (FindBackupSetting s (Database.ID d))), Return)"
  using assms
  by (auto simp: checkBackupAnomaly_def settingLookupOk_def settingSchedule_def
        spec_effectiveSchedule_def settingRow_def split: prod.splits option.splits)

lemma backupPolicyAnomalyPayload_spec:
  "backupPolicyAnomalyPayload policy i sched =
     (if spec_violation (Schedule policy) sched
      then Some (AnomalyDatabaseBackupPolicyViolationPayload (EnvironmentId i) (Schedule policy) sched)
      else None)"
  by (auto simp: backupPolicyAnomalyPayload_def spec_violation_def sched_defs)

text \<open>
  The three defects in general form: a matching dump never leads to a request for the
  drift type; a failed resolution of one instance ends the loop over the instances; a
  failed backup lookup that returns no list leads to the upsert.
\<close>

lemma drift_match_requests:
  assumes "GetDatabaseDriver s inst = Inr driver"
    and "Dump driver (Database.Name database) = Inr schema"
    and "FindMigrationHistoryList driver (Database.Name database) 1 = Inr (h # rest)"
    and "Schema h = schema"
  shows "ledgerRequests AnomalyDatabaseSchemaDrift (checkDatabaseAnomaly s inst database) = []"
    and "ledgerRequests AnomalyDatabaseConnection (checkDatabaseAnomaly s inst database) =
           [Archive \<lparr>DatabaseId = Database.ID database, Type = AnomalyDatabaseConnection\<rparr>,
            Archive \<lparr>DatabaseId = Database.ID database, Type = AnomalyDatabaseConnection\<rparr>]"
  using assms
  by (simp_all add: checkDatabaseAnomaly_def checkSchemaDrift_def ledgerRequests_def archive_def
        split: option.splits)

lemma scanInstances_stops:
  assumes "ComposeInstanceAdminDataSource s (attachEnvironment environmentList i) = Inl err"
  shows "scanInstances s environmentList policyMap (i # instanceList) runningTasks =
           ([LogError ''Failed to retrieve instance admin connection info'' None], Return, runningTasks)"
  using assms by simp

lemma failed_backup_lookup_upserts:
  assumes "settingLookupOk (FindBackupSetting s (Database.ID database))"
    and "policyMap (EnvironmentId inst) = Some policy"
    and "fst (FindBackupSetting s (Database.ID database)) = Some bs"
    and "Enabled bs"
    and "BackupSetting.UpdatedTs bs < Now s 0 - spec_maxAge bs"
    and "FindBackupList s (Database.ID database) = ([], Some err)"
    and "json_Marshal s (AnomalyDatabaseBackupMissingPayload
           (if DayOfWeek bs = - 1 then BackupPlanPolicyScheduleDaily else BackupPlanPolicyScheduleWeekly) 0)
         = Inr payload"
  shows "ledgerRequests AnomalyDatabaseBackupMissing (fst (checkBackupAnomaly s inst database policyMap)) =
           [Upsert \<lparr>CreatorId = SYSTEM_BOT_ID s, InstanceId = Instance.ID inst,
                    DatabaseId = Database.ID database, Type = AnomalyDatabaseBackupMissing,
                    Payload = payload\<rparr>]"
  using assms(3-7)
  by (simp add: checkBackupAnomaly_runs [where policyMap = policyMap and i = inst, OF assms(1,2)]
        ledger_simps ledgerRequests_checkBackupPolicyViolation_other
        checkBackupMissing_def backupMissingAnomalyPayload_def spec_maxAge_def Let_def)

text \<open>
  Claim C5: when the setting lookup gives a row or reports not-found, and the
  environment has a policy, the ledger requests of checkBackupAnomaly for the
  DatabaseBackupPolicyViolation type are exactly one upsert if the required schedule is
  not Unset and either required = Daily and effective \<noteq> Daily, or required = Weekly
  and effective = Unset; and exactly one archive request otherwise. The effective
  schedule is the one of the specification (Unset when there is no row). The upsert
  carries the marshalled payload of environment, required and effective schedule.
\<close>

theorem C5_policy_violation_iff:
  assumes "settingLookupOk (FindBackupSetting s (Database.ID database))"
    and "policyMap (EnvironmentId inst) = Some policy"
    and "effective = spec_effectiveSchedule (settingRow (FindBackupSetting s (Database.ID database)))"
    and "json_Marshal s (AnomalyDatabaseBackupPolicyViolationPayload (EnvironmentId inst)
           (Schedule policy) effective) = Inr payload"
  shows "ledgerRequests AnomalyDatabaseBackupPolicyViolation
           (fst (checkBackupAnomaly s inst database policyMap)) =
         (if spec_violation (Schedule policy) effective
          then [Upsert \<lparr>CreatorId = SYSTEM_BOT_ID s, InstanceId = Instance.ID inst,
                        DatabaseId = Database.ID database,
                        Type = AnomalyDatabaseBackupPolicyViolation, Payload = payload\<rparr>]
          else [Archive \<lparr>DatabaseId = Database.ID database,
                         Type = AnomalyDatabaseBackupPolicyViolation\<rparr>])"
proof -
  have "ledgerRequests AnomalyDatabaseBackupPolicyViolation
          (checkBackupMissing s inst database (fst (FindBackupSetting s (Database.ID database)))) = []"
    by (rule ledgerRequests_checkBackupMissing_other) simp
  then show ?thesis
    using assms(3,4)
    by (simp add: checkBackupAnomaly_runs [where policyMap = policyMap and i = inst, OF assms(1,2)]
          ledger_simps checkBackupPolicyViolation_def backupPolicyAnomalyPayload_spec)
qed

theorem C5_policy_violation_iff_witness:
  "ledgerRequests AnomalyDatabaseBackupPolicyViolation
     (fst (checkBackupAnomaly hourlessServices instance1 database1 dailyPolicyMap)) =
   [Upsert \<lparr>CreatorId = 1, InstanceId = 7, DatabaseId = 42,
            Type = AnomalyDatabaseBackupPolicyViolation, Payload = ''{}''\<rparr>]
   \<and> ledgerRequests AnomalyDatabaseBackupPolicyViolation
     (fst (checkBackupAnomaly graceServices instance1 database1 dailyPolicyMap)) =
   [Archive \<lparr>DatabaseId = 42, Type = AnomalyDatabaseBackupPolicyViolation\<rparr>]"
proof -
  have a: "settingLookupOk (FindBackupSetting hourlessServices (Database.ID database1))"
    by (simp add: ex_defs settingLookupOk_def)
  have b: "settingLookupOk (FindBackupSetting graceServices (Database.ID database1))"
    by (simp add: ex_defs settingLookupOk_def)
  have p: "dailyPolicyMap (EnvironmentId instance1) = Some \<lparr>Schedule = BackupPlanPolicyScheduleDaily\<rparr>"
    by (simp add: ex_defs)
  have e1: "BackupPlanPolicyScheduleUnset =
      spec_effectiveSchedule (settingRow (FindBackupSetting hourlessServices (Database.ID database1)))"
    by (simp add: ex_defs spec_effectiveSchedule_def settingRow_def)
  have e2: "BackupPlanPolicyScheduleDaily =
      spec_effectiveSchedule (settingRow (FindBackupSetting graceServices (Database.ID database1)))"
    by (simp add: ex_defs spec_effectiveSchedule_def settingRow_def)
  have m1: "json_Marshal hourlessServices (AnomalyDatabaseBackupPolicyViolationPayload (EnvironmentId instance1)
           (Schedule \<lparr>Schedule = BackupPlanPolicyScheduleDaily\<rparr>) BackupPlanPolicyScheduleUnset) = Inr ''{}''"
    by (simp add: ex_defs)
  have m2: "json_Marshal graceServices (AnomalyDatabaseBackupPolicyViolationPayload (EnvironmentId instance1)
           (Schedule \<lparr>Schedule = BackupPlanPolicyScheduleDaily\<rparr>) BackupPlanPolicyScheduleDaily) = Inr ''{}''"
    by (simp add: ex_defs)
  show ?thesis
    using C5_policy_violation_iff [where policyMap = dailyPolicyMap and inst = instance1, OF a p e1 m1]
      C5_policy_violation_iff [where policyMap = dailyPolicyMap and inst = instance1, OF b p e2 m2]
    by (simp add: spec_violation_def sched_defs ex_defs)
qed

text \<open>
  Claim C9: when the driver cannot be opened, checkDatabaseAnomaly begins with the
  upsert of an active DatabaseConnection anomaly whose payload is the marshalled detail
  string of the error (whenever that payload marshals), sends no ledger request for the
  DatabaseSchemaDrift type, and calls no driver method: no dump, no history lookup.
\<close>

theorem C9_connection_failure_gates_drift:
  assumes "GetDatabaseDriver s inst = Inl err"
  shows "(\<forall>payload. json_Marshal s (AnomalyDatabaseConnectionPayload (Error err)) = Inr payload \<longrightarrow>
            (\<exists>logs. checkDatabaseAnomaly s inst database =
               Upsert \<lparr>CreatorId = SYSTEM_BOT_ID s, InstanceId = Instance.ID inst,
                       DatabaseId = Database.ID database, Type = AnomalyDatabaseConnection,
                       Payload = payload\<rparr> # logs))
         \<and> ledgerRequests AnomalyDatabaseSchemaDrift (checkDatabaseAnomaly s inst database) = []
         \<and> filter isDriverCall (checkDatabaseAnomaly s inst database) = []"
  using assms
  by (auto simp: checkDatabaseAnomaly_def upsertActive_def ledgerRequests_def split: sum.splits option.splits)

theorem C9_connection_failure_gates_drift_witness:
  "checkDatabaseAnomaly unreachableServices instance1 database1 =
     [Upsert \<lparr>CreatorId = 1, InstanceId = 7, DatabaseId = 42, Type = AnomalyDatabaseConnection,
              Payload = ''{}''\<rparr>]
   \<and> ledgerRequests AnomalyDatabaseSchemaDrift (checkDatabaseAnomaly unreachableServices instance1 database1) = []
   \<and> filter isDriverCall (checkDatabaseAnomaly unreachableServices instance1 database1) = []"
proof -
  have a: "GetDatabaseDriver unreachableServices instance1 = Inl (Err (OtherCode 1) ''dial tcp: connection refused'')"
    by (simp add: ex_defs)
  have "checkDatabaseAnomaly unreachableServices instance1 database1 =
     [Upsert \<lparr>CreatorId = 1, InstanceId = 7, DatabaseId = 42, Type = AnomalyDatabaseConnection,
              Payload = ''{}''\<rparr>]"
    by (simp add: checkDatabaseAnomaly_def upsertActive_def ex_defs)
  then show ?thesis
    using C9_connection_failure_gates_drift [OF a, of database1] by simp
qed


lemma backupMissingAnomalyPayload_None:
  "noMissingBackup s d row \<Longrightarrow> snd (backupMissingAnomalyPayload s d row) = None"
  by (auto simp: noMissingBackup_def backupMissingAnomalyPayload_def spec_maxAge_def Let_def
        split: option.splits prod.splits list.splits if_splits)

lemma ledgerRequests_checkBackupMissing_archive:
  assumes "noMissingBackup s d row"
  shows "ledgerRequests AnomalyDatabaseBackupMissing (checkBackupMissing s i d row) =
           [Archive \<lparr>DatabaseId = Database.ID d, Type = AnomalyDatabaseBackupMissing\<rparr>]"
proof -
  obtain logs where "backupMissingAnomalyPayload s d row = (logs, None)"
    using backupMissingAnomalyPayload_None [OF assms]
    by (cases "backupMissingAnomalyPayload s d row") simp
  then show ?thesis by (rule ledgerRequests_checkBackupMissing_None)
qed

lemma close_log_upsertActive: "LogError ''Failed to close anomaly'' t \<notin> set (upsertActive s u t')"
  by (simp add: upsertActive_def split: option.splits)

lemma close_log_checkBackupPolicyViolation:
  "LogError ''Failed to close anomaly'' (Some AnomalyDatabaseBackupMissing)
     \<notin> set (checkBackupPolicyViolation s i d policy sched)"
  by (auto simp: checkBackupPolicyViolation_def archive_def upsertActive_def
        split: option.splits sum.splits if_splits)

lemma close_log_checkBackupMissing:
  assumes "ArchiveAnomaly s \<lparr>DatabaseId = Database.ID d, Type = AnomalyDatabaseBackupMissing\<rparr> = Some e"
    and "ErrorCode e = NotFound"
  shows "LogError ''Failed to close anomaly'' t \<notin> set (checkBackupMissing s i d row)"
proof -
  obtain logs p where r: "backupMissingAnomalyPayload s d row = (logs, p)"
    by (cases "backupMissingAnomalyPayload s d row")
  have "LogError ''Failed to close anomaly'' t \<notin> set logs"
    using r
    by (auto simp: backupMissingAnomalyPayload_def Let_def split: option.splits prod.splits if_splits)
  then show ?thesis
    using assms
    by (auto simp: checkBackupMissing_def r archive_def upsertActive_def split: option.splits sum.splits)
qed

text \<open>
  Claim C4, amended: for a database whose backup setting is enabled and was last updated
  more recently than now - maxAge, the backup-missing detector upserts no
  DatabaseBackupMissing anomaly; its one ledger request for the type is an archive
  request for the database.
\<close>

theorem C4_grace_period_only_archives:
  assumes "settingLookupOk (FindBackupSetting s (Database.ID database))"
    and "policyMap (EnvironmentId inst) = Some policy"
    and "fst (FindBackupSetting s (Database.ID database)) = Some bs"
    and "Enabled bs"
    and "BackupSetting.UpdatedTs bs > Now s 0 - spec_maxAge bs"
  shows "ledgerRequests AnomalyDatabaseBackupMissing
           (fst (checkBackupAnomaly s inst database policyMap)) =
         [Archive \<lparr>DatabaseId = Database.ID database, Type = AnomalyDatabaseBackupMissing\<rparr>]"
proof -
  have "noMissingBackup s database (Some bs)"
    using assms(5) by (simp add: noMissingBackup_def)
  then have "ledgerRequests AnomalyDatabaseBackupMissing (checkBackupMissing s inst database (Some bs)) =
      [Archive \<lparr>DatabaseId = Database.ID database, Type = AnomalyDatabaseBackupMissing\<rparr>]"
    by (rule ledgerRequests_checkBackupMissing_archive)
  then show ?thesis
    using assms(3)
    by (simp add: checkBackupAnomaly_runs [where policyMap = policyMap and i = inst, OF assms(1,2)]
          ledger_simps ledgerRequests_checkBackupPolicyViolation_other)
qed

theorem C4_grace_period_only_archives_witness:
  "ledgerRequests AnomalyDatabaseBackupMissing
     (fst (checkBackupAnomaly graceServices instance1 database1 dailyPolicyMap)) =
   [Archive \<lparr>DatabaseId = 42, Type = AnomalyDatabaseBackupMissing\<rparr>]"
proof -
  have a: "settingLookupOk (FindBackupSetting graceServices (Database.ID database1))"
    by (simp add: ex_defs settingLookupOk_def)
  have p: "dailyPolicyMap (EnvironmentId instance1) = Some \<lparr>Schedule = BackupPlanPolicyScheduleDaily\<rparr>"
    by (simp add: ex_defs)
  have b: "fst (FindBackupSetting graceServices (Database.ID database1)) = Some freshDailySetting"
    by (simp add: ex_defs)
  have c: "Enabled freshDailySetting"
    by (simp add: ex_defs)
  have d: "BackupSetting.UpdatedTs freshDailySetting > Now graceServices 0 - spec_maxAge freshDailySetting"
    by (simp add: ex_defs spec_maxAge_def)
  show ?thesis
    using C4_grace_period_only_archives [where policyMap = dailyPolicyMap and inst = instance1, OF a p b c d]
    by (simp add: ex_defs)
qed

text \<open>
  Claim C10 as stated fails for a setting that is enabled with hour = -1: the
  backup-missing block does not read the hour, so past the maximal age and without a
  backup it upserts instead of archiving.
\<close>

theorem C10_hour_unset_still_upserts:
  "Enabled hourlessSetting \<and> Hour hourlessSetting = - 1
   \<and> ledgerRequests AnomalyDatabaseBackupMissing
        (fst (checkBackupAnomaly hourlessServices instance1 database1 dailyPolicyMap)) =
       [Upsert \<lparr>CreatorId = 1, InstanceId = 7, DatabaseId = 42,
                Type = AnomalyDatabaseBackupMissing, Payload = ''{}''\<rparr>]"
  by (simp add: backup_defs ex_defs sched_defs ledgerRequests_def)

text \<open>
  Claim C10, amended: whenever the backup-missing check runs and builds no payload,
  because the setting is absent, or disabled, or within its grace period, or a recent
  enough backup exists, checkBackupAnomaly sends exactly one ledger request for the
  DatabaseBackupMissing type, an archive request for the database, and logs no failure
  when the ledger answers not-found.
\<close>

theorem C10_no_payload_archives:
  assumes "settingLookupOk (FindBackupSetting s (Database.ID database))"
    and "policyMap (EnvironmentId inst) = Some policy"
    and "noMissingBackup s database (fst (FindBackupSetting s (Database.ID database)))"
  shows "ledgerRequests AnomalyDatabaseBackupMissing
           (fst (checkBackupAnomaly s inst database policyMap)) =
         [Archive \<lparr>DatabaseId = Database.ID database, Type = AnomalyDatabaseBackupMissing\<rparr>]
       \<and> (\<forall>e. ArchiveAnomaly s \<lparr>DatabaseId = Database.ID database, Type = AnomalyDatabaseBackupMissing\<rparr> = Some e
               \<and> ErrorCode e = NotFound \<longrightarrow>
             LogError ''Failed to close anomaly'' (Some AnomalyDatabaseBackupMissing)
               \<notin> set (fst (checkBackupAnomaly s inst database policyMap)))"
  using ledgerRequests_checkBackupMissing_archive [OF assms(3), of inst]
  by (auto simp: checkBackupAnomaly_runs [where policyMap = policyMap and i = inst, OF assms(1,2)]
        ledger_simps ledgerRequests_checkBackupPolicyViolation_other
        close_log_checkBackupPolicyViolation close_log_checkBackupMissing)

theorem C10_no_payload_archives_witness:
  "\<not> Enabled disabledSetting
   \<and> ArchiveAnomaly disabledServices \<lparr>DatabaseId = 42, Type = AnomalyDatabaseBackupMissing\<rparr>
       = Some (Err NotFound ''anomaly not found'')
   \<and> ledgerRequests AnomalyDatabaseBackupMissing
       (fst (checkBackupAnomaly disabledServices instance1 database1 dailyPolicyMap)) =
     [Archive \<lparr>DatabaseId = 42, Type = AnomalyDatabaseBackupMissing\<rparr>]
   \<and> LogError ''Failed to close anomaly'' (Some AnomalyDatabaseBackupMissing)
       \<notin> set (fst (checkBackupAnomaly disabledServices instance1 database1 dailyPolicyMap))"
proof -
  have a: "settingLookupOk (FindBackupSetting disabledServices (Database.ID database1))"
    by (simp add: ex_defs settingLookupOk_def)
  have p: "dailyPolicyMap (EnvironmentId instance1) = Some \<lparr>Schedule = BackupPlanPolicyScheduleDaily\<rparr>"
    by (simp add: ex_defs)
  have c: "noMissingBackup disabledServices database1 (fst (FindBackupSetting disabledServices (Database.ID database1)))"
    by (simp add: ex_defs noMissingBackup_def)
  have d: "ArchiveAnomaly disabledServices \<lparr>DatabaseId = Database.ID database1, Type = AnomalyDatabaseBackupMissing\<rparr>
       = Some (Err NotFound ''anomaly not found'')"
    by (simp add: ex_defs)
  show ?thesis
    using C10_no_payload_archives [where policyMap = dailyPolicyMap and inst = instance1, OF a p c] d
    by (simp add: ex_defs)
qed

end
